theory Spec2Isabelle
  imports Complex_Main "HOL-Library.Sublist"
begin


section \<open>Strings, numbers and arrays as the TypeScript sources use them\<close>

text \<open>
  Strings are lists of characters; a character stands for a code unit below 256, so the
  strings of the model are the JavaScript strings over Latin-1. \<open>toLowerCase\<close> maps the
  letters A to Z, and the capital letters of Latin-1 (0xC0 to 0xDE without the
  multiplication sign 0xD7), to their small letters and leaves every other character alone.
\<close>

definition toLowerChar :: "char \<Rightarrow> char" where
  "toLowerChar c =
     (case map_of
             (zip (''ABCDEFGHIJKLMNOPQRSTUVWXYZ''
                   @ [CHR 0xC0, CHR 0xC1, CHR 0xC2, CHR 0xC3, CHR 0xC4, CHR 0xC5, CHR 0xC6, CHR 0xC7,
                      CHR 0xC8, CHR 0xC9, CHR 0xCA, CHR 0xCB, CHR 0xCC, CHR 0xCD, CHR 0xCE, CHR 0xCF,
                      CHR 0xD0, CHR 0xD1, CHR 0xD2, CHR 0xD3, CHR 0xD4, CHR 0xD5, CHR 0xD6, CHR 0xD8,
                      CHR 0xD9, CHR 0xDA, CHR 0xDB, CHR 0xDC, CHR 0xDD, CHR 0xDE])
                  (''abcdefghijklmnopqrstuvwxyz''
                   @ [CHR 0xE0, CHR 0xE1, CHR 0xE2, CHR 0xE3, CHR 0xE4, CHR 0xE5, CHR 0xE6, CHR 0xE7,
                      CHR 0xE8, CHR 0xE9, CHR 0xEA, CHR 0xEB, CHR 0xEC, CHR 0xED, CHR 0xEE, CHR 0xEF,
                      CHR 0xF0, CHR 0xF1, CHR 0xF2, CHR 0xF3, CHR 0xF4, CHR 0xF5, CHR 0xF6, CHR 0xF8,
                      CHR 0xF9, CHR 0xFA, CHR 0xFB, CHR 0xFC, CHR 0xFD, CHR 0xFE])) c of
        Some l \<Rightarrow> l
      | None \<Rightarrow> c)"

definition toLowerCase :: "string \<Rightarrow> string" where
  "toLowerCase s = map toLowerChar s"

definition startsWith :: "string \<Rightarrow> string \<Rightarrow> bool" where
  "startsWith s p = prefix p s"

text \<open>
  \<open>Array.prototype.slice(start, end)\<close>: a negative index counts from the end of the array,
  both indices are clamped to the array, and an empty range gives the empty array.
\<close>

definition slice :: "'a list \<Rightarrow> int \<Rightarrow> int \<Rightarrow> 'a list" where
  "slice xs start fin =
     (let len = int (length xs);
          k = (if start < 0 then max (len + start) 0 else min start len);
          e = (if fin < 0 then max (len + fin) 0 else min fin len)
      in take (nat (e - k)) (drop (nat k) xs))"

text \<open>
  Numbers: a JavaScript number is \<open>NaN\<close>, an infinity or a finite value. Finite values are
  exact reals here (rounding is not modelled; the properties below concern signs and
  comparisons only). \<open>Math.max\<close>, subtraction and multiplication are given for a finite
  second operand, positive in the case of multiplication, as the sources use them.
\<close>

datatype jsnum = NaN | NegInfinity | Num real | PosInfinity

fun mathMax :: "jsnum \<Rightarrow> real \<Rightarrow> jsnum" where
  "mathMax NaN b = NaN"
| "mathMax NegInfinity b = Num b"
| "mathMax (Num a) b = Num (max a b)"
| "mathMax PosInfinity b = PosInfinity"

fun minusNum :: "jsnum \<Rightarrow> real \<Rightarrow> jsnum" where
  "minusNum NaN b = NaN"
| "minusNum NegInfinity b = NegInfinity"
| "minusNum (Num a) b = Num (a - b)"
| "minusNum PosInfinity b = PosInfinity"

fun timesPositive :: "jsnum \<Rightarrow> real \<Rightarrow> jsnum" where
  "timesPositive NaN b = NaN"
| "timesPositive NegInfinity b = NegInfinity"
| "timesPositive (Num a) b = Num (a * b)"
| "timesPositive PosInfinity b = PosInfinity"

fun nonNegative :: "jsnum \<Rightarrow> bool" where
  "nonNegative NaN = False"
| "nonNegative NegInfinity = False"
| "nonNegative (Num a) = (0 \<le> a)"
| "nonNegative PosInfinity = True"

fun atLeast1 :: "jsnum \<Rightarrow> bool" where
  "atLeast1 NaN = False"
| "atLeast1 NegInfinity = False"
| "atLeast1 (Num a) = (1 \<le> a)"
| "atLeast1 PosInfinity = True"

definition ITEMS_PER_PAGE :: int where
  "ITEMS_PER_PAGE = 6"

section \<open>The search page: state, derived values, effect and rendering\<close>

text \<open>
  \<open>Physician\<close> carries the columns the page logic reads or the scenarios name; the remaining
  columns (role, facility, city, state, zip, affiliation, trialTitle) are only displayed.
\<close>

record Physician =
  id_p :: int
  name :: string
  nctId :: "string option"
  distance :: jsnum
  startDate :: string

record ApiResponse =
  physicians :: "Physician list"
  totalCount :: int

record TrialMeta =
  nctId_tm :: string
  phase :: string
  fundedBy :: "string option"
  overallStatus :: "string option"

datatype SponsorType = Any | Industry

record TrialFilters =
  phases :: "string list"
  sponsorType :: SponsorType
  recruitingOnly :: bool

definition DEFAULT_FILTERS :: TrialFilters where
  "DEFAULT_FILTERS = \<lparr>phases = [], sponsorType = Any, recruitingOnly = False\<rparr>"

record SearchParams =
  zipCode :: string
  radius :: int
  startYear_sp :: "nat option"
  endYear_sp :: "nat option"

text \<open>
  The component state: the \<open>useState\<close> cells, the result of the paged \<open>useQuery\<close>
  (\<open>data\<close>, \<open>isSearching\<close>, \<open>error\<close>) and the result of \<open>useTrialMeta\<close>
  (\<open>metaData\<close>, \<open>metaLoading\<close>, \<open>metaError\<close>).
\<close>

record PageState =
  filters :: TrialFilters
  searchParams :: "SearchParams option"
  currentPage :: int
  data :: "ApiResponse option"
  isSearching :: bool
  error :: "string option"
  allPhysicians :: "Physician list option"
  allLoading :: bool
  allError :: "string option"
  allPhysiciansDataAvailable :: bool
  metaData :: "TrialMeta list option"
  metaLoading :: bool
  metaError :: "string option"

definition isTrialFilterActive :: "TrialFilters \<Rightarrow> bool" where
  "isTrialFilterActive f =
     (length (phases f) > 0 \<or> sponsorType f \<noteq> Any \<or> recruitingOnly f)"

text \<open>\<open>isTrialFilterActive && allPhysicians ? allPhysicians : data?.physicians || []\<close>\<close>

definition baseSet :: "PageState \<Rightarrow> Physician list" where
  "baseSet st =
     (case (isTrialFilterActive (filters st), allPhysicians st) of
        (True, Some allp) \<Rightarrow> allp
      | _ \<Rightarrow> (case data st of None \<Rightarrow> [] | Some d \<Rightarrow> physicians d))"

definition nctIds :: "PageState \<Rightarrow> string list" where
  "nctIds st = [i. Some i \<leftarrow> map nctId (baseSet st), length i > 0]"

definition trialMeta :: "PageState \<Rightarrow> TrialMeta list" where
  "trialMeta st = (case metaData st of None \<Rightarrow> [] | Some ms \<Rightarrow> ms)"

definition metaMapOf :: "TrialMeta list \<Rightarrow> (string \<rightharpoonup> TrialMeta)" where
  "metaMapOf ms = foldl (\<lambda>m tm. m(nctId_tm tm \<mapsto> tm)) Map.empty ms"

definition metaMap :: "PageState \<Rightarrow> (string \<rightharpoonup> TrialMeta)" where
  "metaMap st = metaMapOf (trialMeta st)"

text \<open>
  The callback given to \<open>base.filter\<close>. An absent or empty \<open>nctId\<close> is falsy, so no lookup is
  made for it; \<open>fundedBy?.toLowerCase()\<close> and \<open>overallStatus?.toLowerCase()\<close> are
  \<open>undefined\<close> on a null field.
\<close>

definition lookupMeta :: "(string \<rightharpoonup> TrialMeta) \<Rightarrow> Physician \<Rightarrow> TrialMeta option" where
  "lookupMeta mm p =
     (case nctId p of None \<Rightarrow> None | Some k \<Rightarrow> if k = [] then None else mm k)"

definition keepPhysician :: "TrialFilters \<Rightarrow> (string \<rightharpoonup> TrialMeta) \<Rightarrow> Physician \<Rightarrow> bool" where
  "keepPhysician f mm p =
     (case lookupMeta mm p of
        None \<Rightarrow> False
      | Some meta \<Rightarrow>
          if length (phases f) \<noteq> 0 \<and> phase meta \<notin> set (phases f) then False
          else if sponsorType f = Industry
                  \<and> map_option toLowerCase (fundedBy meta) \<noteq> Some ''industry'' then False
          else if recruitingOnly f
                  \<and> \<not> (case overallStatus meta of
                           None \<Rightarrow> False
                         | Some s \<Rightarrow> startsWith (toLowerCase s) ''recruit'') then False
          else True)"

definition filteredPhysicians :: "PageState \<Rightarrow> Physician list" where
  "filteredPhysicians st =
     (let base = baseSet st;
          f = filters st;
          noPhase = (length (phases f) = 0);
          anySponsor = (sponsorType f = Any);
          noRecruit = (\<not> recruitingOnly f)
      in if length base = 0 then []
         else if \<not> isTrialFilterActive f \<or> (noPhase \<and> anySponsor \<and> noRecruit) then base
         else filter (keepPhysician f (metaMap st)) base)"

definition paginatedPhysicians :: "PageState \<Rightarrow> Physician list" where
  "paginatedPhysicians st =
     (if isTrialFilterActive (filters st)
      then (let start = (currentPage st - 1) * ITEMS_PER_PAGE;
                fin = start + ITEMS_PER_PAGE
            in slice (filteredPhysicians st) start fin)
      else filteredPhysicians st)"

definition displayPhysicians :: "PageState \<Rightarrow> Physician list" where
  "displayPhysicians st = paginatedPhysicians st"

definition filteredTotalCount :: "PageState \<Rightarrow> int" where
  "filteredTotalCount st = int (length (filteredPhysicians st))"

text \<open>\<open>data?.totalCount || 0\<close>: a count of zero is falsy and is replaced by 0.\<close>

definition serverTotalCount :: "PageState \<Rightarrow> int" where
  "serverTotalCount st =
     (case data st of None \<Rightarrow> 0 | Some d \<Rightarrow> if totalCount d = 0 then 0 else totalCount d)"

definition totalCountToShow :: "PageState \<Rightarrow> int" where
  "totalCountToShow st =
     (if isTrialFilterActive (filters st) then filteredTotalCount st else serverTotalCount st)"

text \<open>
  The effect that fetches the whole result set (dependencies: \<open>isTrialFilterActive\<close> and
  \<open>searchParams\<close>). \<open>fetchAllEffect\<close> is the synchronous part; the promise then settles
  through \<open>fetchAllThen\<close> or \<open>fetchAllCatch\<close>, followed by \<open>fetchAllFinally\<close>; each
  handler does nothing once the effect has been cancelled.
\<close>

definition fetchAllEffect :: "PageState \<Rightarrow> PageState" where
  "fetchAllEffect st =
     (if isTrialFilterActive (filters st) \<and> searchParams st \<noteq> None
      then st\<lparr>allLoading := True, allError := None, allPhysiciansDataAvailable := False\<rparr>
      else st\<lparr>allPhysicians := None, allError := None, allPhysiciansDataAvailable := False\<rparr>)"

definition fetchAllThen :: "bool \<Rightarrow> ApiResponse \<Rightarrow> PageState \<Rightarrow> PageState" where
  "fetchAllThen cancelled res st =
     (if \<not> cancelled
      then st\<lparr>allPhysicians := Some (physicians res), allPhysiciansDataAvailable := True\<rparr>
      else st)"

text \<open>\<open>err.message || "Failed to fetch all results"\<close>: a missing or empty message is falsy.\<close>

definition fetchAllCatch :: "bool \<Rightarrow> string option \<Rightarrow> PageState \<Rightarrow> PageState" where
  "fetchAllCatch cancelled message st =
     (if \<not> cancelled
      then st\<lparr>allError :=
                 Some (case message of
                         None \<Rightarrow> ''Failed to fetch all results''
                       | Some m \<Rightarrow> if m = [] then ''Failed to fetch all results'' else m),
              allPhysiciansDataAvailable := False\<rparr>
      else st)"

definition fetchAllFinally :: "bool \<Rightarrow> PageState \<Rightarrow> PageState" where
  "fetchAllFinally cancelled st = (if \<not> cancelled then st\<lparr>allLoading := False\<rparr> else st)"

definition fetchAllSucceeded :: "ApiResponse \<Rightarrow> PageState \<Rightarrow> PageState" where
  "fetchAllSucceeded res st = fetchAllFinally False (fetchAllThen False res st)"

definition fetchAllFailed :: "string option \<Rightarrow> PageState \<Rightarrow> PageState" where
  "fetchAllFailed message st = fetchAllFinally False (fetchAllCatch False message st)"

definition setFilters :: "TrialFilters \<Rightarrow> PageState \<Rightarrow> PageState" where
  "setFilters f st = st\<lparr>filters := f\<rparr>"

text \<open>
  The user applies the filter \<open>f\<close> to an unfiltered page and the request for the whole set
  is rejected: the effect has run for the unfiltered state, runs again for the new filter,
  and its promise settles through the catch handler.
\<close>

definition applyFilterFetchFails :: "TrialFilters \<Rightarrow> string option \<Rightarrow> PageState \<Rightarrow> PageState" where
  "applyFilterFetchFails f message st =
     fetchAllFailed message (fetchAllEffect (setFilters f (fetchAllEffect st)))"

text \<open>
  The results section of the rendered page, one field per conditional block of the JSX.
  A string state cell is truthy when it is neither null nor empty.
\<close>

datatype ResultsBody = Skeletons | Cards "Physician list" | EmptyPlaceholder string | NoBody

record View =
  errorMessage :: "string option"
  resultsCount :: bool
  allSkeleton :: bool
  allErrorMessage :: "string option"
  body :: ResultsBody
  metaWarning :: bool

definition truthy :: "string option \<Rightarrow> bool" where
  "truthy s = (case s of None \<Rightarrow> False | Some m \<Rightarrow> m \<noteq> [])"

definition render :: "PageState \<Rightarrow> View" where
  "render st =
     \<lparr>errorMessage = error st,
      resultsCount =
        (searchParams st \<noteq> None \<and> \<not> (isSearching st \<or> allLoading st) \<and> error st = None
         \<and> \<not> truthy (allError st) \<and> length (displayPhysicians st) > 0),
      allSkeleton = allLoading st,
      allErrorMessage = (if truthy (allError st) then allError st else None),
      body =
        (if isSearching st then Skeletons
         else if length (displayPhysicians st) > 0 then Cards (displayPhysicians st)
         else if searchParams st \<noteq> None \<and> error st = None
              then EmptyPlaceholder ''No PIs match the selected filters.''
         else NoBody),
      metaWarning = (metaError st \<noteq> None)\<rparr>"

section \<open>The filter predicate as the specification words it\<close>

text \<open>
  An investigator satisfies the predicate when it has an external trial identifier with an
  attributes record, the phase is a member of the phase set when that set is non-empty, the
  sponsor class equals \<open>industry\<close> up to case when the sponsor constraint is industry-only,
  and the overall status starts with \<open>recruit\<close> up to case when recruiting-only is set.
\<close>

definition satisfiesPredicate ::
  "TrialFilters \<Rightarrow> (string \<rightharpoonup> TrialMeta) \<Rightarrow> Physician \<Rightarrow> bool" where
  "satisfiesPredicate f lookup p =
     (case nctId p of
        None \<Rightarrow> False
      | Some k \<Rightarrow>
          (case lookup k of
             None \<Rightarrow> False
           | Some attrs \<Rightarrow>
               (phases f \<noteq> [] \<longrightarrow> phase attrs \<in> set (phases f))
             \<and> (sponsorType f = Industry \<longrightarrow>
                   (case fundedBy attrs of
                      None \<Rightarrow> False
                    | Some c \<Rightarrow> toLowerCase c = toLowerCase ''industry''))
             \<and> (recruitingOnly f \<longrightarrow>
                   (case overallStatus attrs of
                      None \<Rightarrow> False
                    | Some s \<Rightarrow> prefix (toLowerCase ''recruit'') (toLowerCase s)))))"

section \<open>Example data\<close>

definition inv1 :: Physician where
  "inv1 = \<lparr>id_p = 1, name = ''Ada'', nctId = Some ''NCT01'', distance = Num 2.5,
            startDate = ''2020-01-01''\<rparr>"

definition inv2 :: Physician where
  "inv2 = \<lparr>id_p = 2, name = ''Bo'', nctId = Some ''NCT02'', distance = Num 4,
            startDate = ''2021-01-01''\<rparr>"

definition inv3 :: Physician where
  "inv3 = \<lparr>id_p = 3, name = ''Cy'', nctId = None, distance = Num 7.25,
            startDate = ''2019-06-01''\<rparr>"

definition inv4 :: Physician where
  "inv4 = \<lparr>id_p = 4, name = ''Di'', nctId = Some ''NCT09'', distance = Num 11,
            startDate = ''2018-03-01''\<rparr>"

definition meta12 :: "TrialMeta list" where
  "meta12 =
     [\<lparr>nctId_tm = ''NCT01'', phase = ''2'', fundedBy = Some ''OTHER'',
       overallStatus = Some ''COMPLETED''\<rparr>,
      \<lparr>nctId_tm = ''NCT02'', phase = ''3'', fundedBy = Some ''INDUSTRY'',
       overallStatus = Some ''RECRUITING''\<rparr>]"

definition industryRecruiting :: TrialFilters where
  "industryRecruiting = \<lparr>phases = [], sponsorType = Industry, recruitingOnly = True\<rparr>"

definition phaseTwo :: TrialFilters where
  "phaseTwo = \<lparr>phases = [''2''], sponsorType = Any, recruitingOnly = False\<rparr>"

definition houston :: SearchParams where
  "houston = \<lparr>zipCode = ''77030'', radius = 15, startYear_sp = None, endYear_sp = None\<rparr>"

text \<open>A settled paged search showing the page \<open>[inv2, inv1, inv3]\<close> of 14 results.\<close>

definition pageShown :: PageState where
  "pageShown =
     \<lparr>filters = DEFAULT_FILTERS, searchParams = Some houston, currentPage = 1,
      data = Some \<lparr>physicians = [inv2, inv1, inv3], totalCount = 14\<rparr>,
      isSearching = False, error = None,
      allPhysicians = None, allLoading = False, allError = None,
      allPhysiciansDataAvailable = False,
      metaData = Some meta12, metaLoading = False, metaError = None\<rparr>"

text \<open>The same search with a filter applied and the whole set \<open>[inv2, inv1, inv3, inv4]\<close> loaded.\<close>

definition fullLoaded :: "TrialFilters \<Rightarrow> PageState" where
  "fullLoaded f =
     fetchAllSucceeded \<lparr>physicians = [inv2, inv1, inv3, inv4], totalCount = 14\<rparr>
       (fetchAllEffect (setFilters f pageShown))"

text \<open>The filtered state of \<open>fullLoaded\<close> after the metadata request has failed.\<close>

definition metaFailed :: PageState where
  "metaFailed =
     (fullLoaded industryRecruiting)
       \<lparr>metaData := None, metaError := Some ''Failed to fetch trial meta (502)''\<rparr>"


section \<open>The trial metadata endpoint: batched requests to the registry\<close>

text \<open>
  String operations of the handlers: \<open>split(",")\<close>, \<open>join(",")\<close>, \<open>trim()\<close>,
  \<open>includes\<close> and the decimal text of a number in a template literal. The white space
  that \<open>trim\<close> strips is, among the code units below 256: tab, line feed, vertical tab,
  form feed, carriage return, space and the no-break space 0xA0.
\<close>

fun splitOn :: "char \<Rightarrow> string \<Rightarrow> string list" where
  "splitOn sep [] = [] # []"
| "splitOn sep (c # cs) =
     (if c = sep then [] # splitOn sep cs
      else (case splitOn sep cs of w # ws \<Rightarrow> (c # w) # ws | [] \<Rightarrow> [c] # []))"

fun joinWith :: "string \<Rightarrow> string list \<Rightarrow> string" where
  "joinWith sep [] = []"
| "joinWith sep [x] = x"
| "joinWith sep (x # y # ys) = x @ sep @ joinWith sep (y # ys)"

definition isWhiteSpace :: "char \<Rightarrow> bool" where
  "isWhiteSpace c =
     (c \<in> set [CHR 0x09, CHR 0x0A, CHR 0x0B, CHR 0x0C, CHR 0x0D, CHR 0x20, CHR 0xA0])"

definition trim :: "string \<Rightarrow> string" where
  "trim s = rev (dropWhile isWhiteSpace (rev (dropWhile isWhiteSpace s)))"

fun includesStr :: "string \<Rightarrow> string \<Rightarrow> bool" where
  "includesStr [] t = (t = [])"
| "includesStr (c # cs) t = (prefix t (c # cs) \<or> includesStr cs t)"

definition digitChar :: "nat \<Rightarrow> char" where
  "digitChar d = (''0123456789'' ! d)"

fun stringOfNat :: "nat \<Rightarrow> string" where
  "stringOfNat n =
     (if n < 10 then [digitChar n] else stringOfNat (n div 10) @ [digitChar (n mod 10)])"

definition MAX_BATCH :: nat where
  "MAX_BATCH = 100"

definition KEEP_FIELDS :: string where
  "KEEP_FIELDS =
     joinWith '',''
       [''protocolSection.identificationModule.nctId'',
        ''protocolSection.designModule.phases'',
        ''protocolSection.sponsorCollaboratorsModule.leadSponsor.class'',
        ''protocolSection.statusModule.overallStatus'']"

text \<open>A raw study of the registry, with its optional modules.\<close>

record DesignModule =
  phases_ct :: "string list option"

record LeadSponsor =
  class_ct :: "string option"

record SponsorCollaboratorsModule =
  leadSponsor :: "LeadSponsor option"

record StatusModule =
  overallStatus_ct :: "string option"

record CtStudy =
  nctId_ct :: string
  designModule :: "DesignModule option"
  sponsorCollaboratorsModule :: "SponsorCollaboratorsModule option"
  statusModule :: "StatusModule option"

text \<open>
  One request to the registry: the entries of its \<open>URLSearchParams\<close>. The registry is a
  function from the request to what \<open>fetch\<close> and \<open>res.json()\<close> deliver: \<open>Inl m\<close> when one
  of them throws an error with message \<open>m\<close>, otherwise the status and the parsed body.
  \<open>res.ok\<close> holds for the statuses 200 to 299.
\<close>

record CtRequest =
  filter_ids :: string
  fields_q :: string
  format_q :: string
  pageSize :: string
  pageToken :: "string option"

record FetchResponse =
  status :: nat
  studies :: "CtStudy list option"
  nextPageToken :: "string option"

type_synonym Upstream = "CtRequest \<Rightarrow> string + FetchResponse"

definition ok :: "nat \<Rightarrow> bool" where
  "ok code = (200 \<le> code \<and> code \<le> 299)"

text \<open>
  How a run of a handler ends: it returns a value, it throws an error with a message, or its
  paging loop is still running when the bound on the requests of one batch is reached.
\<close>

datatype 'a Outcome = Returned 'a | Thrown string | Running

definition ctRequest :: "string list \<Rightarrow> string option \<Rightarrow> CtRequest" where
  "ctRequest batch tok =
     \<lparr>filter_ids = joinWith '','' batch, fields_q = KEEP_FIELDS, format_q = ''json'',
      pageSize = stringOfNat (length batch),
      pageToken = (if truthy tok then tok else None)\<rparr>"

text \<open>The message of the error thrown on a response that is not ok.\<close>

definition requestFailed :: "nat \<Rightarrow> string" where
  "requestFailed code = ''ClinicalTrials.gov request failed ('' @ stringOfNat code @ '')''"

text \<open>
  The \<open>do ... while (pageToken)\<close> loop of one batch. The first argument bounds the number
  of requests; the requests sent so far and the studies gathered so far are
  passed along.
\<close>

fun fetchPages ::
  "nat \<Rightarrow> Upstream \<Rightarrow> string list \<Rightarrow> string option \<Rightarrow> CtRequest list \<Rightarrow> CtStudy list
   \<Rightarrow> CtRequest list \<times> CtStudy list Outcome" where
  "fetchPages 0 up batch tok sent out = (sent, Running)"
| "fetchPages (Suc n) up batch tok sent out =
     (let rq = ctRequest batch tok; sent' = sent @ [rq]
      in case up rq of
           Inl m \<Rightarrow> (sent', Thrown m)
         | Inr res \<Rightarrow>
             if \<not> ok (status res)
             then (sent', Thrown (requestFailed (status res)))
             else (let out' = (case studies res of
                                 None \<Rightarrow> out
                               | Some ss \<Rightarrow> if length ss \<noteq> 0 then out @ ss else out)
                   in if truthy (nextPageToken res)
                      then fetchPages n up batch (nextPageToken res) sent' out'
                      else (sent', Returned out')))"

text \<open>The \<open>for (let i = 0; i < ids.length; i += MAX_BATCH)\<close> loop.\<close>

function fetchBatches ::
  "nat \<Rightarrow> Upstream \<Rightarrow> string list \<Rightarrow> nat \<Rightarrow> CtRequest list \<Rightarrow> CtStudy list
   \<Rightarrow> CtRequest list \<times> CtStudy list Outcome" where
  "fetchBatches bound up ids i sent out =
     (if i < length ids
      then (let batch = slice ids (int i) (int i + int MAX_BATCH)
            in case fetchPages bound up batch None sent out of
                 (sent', Returned out') \<Rightarrow> fetchBatches bound up ids (i + MAX_BATCH) sent' out'
               | (sent', Thrown m) \<Rightarrow> (sent', Thrown m)
               | (sent', Running) \<Rightarrow> (sent', Running))
      else (sent, Returned out))"
  by pat_completeness auto
termination
  by (relation "measure (\<lambda>(bound, up, ids, i, sent, out). length ids - i)")
     (auto simp: MAX_BATCH_def)

text \<open>The batches the loop forms, in order.\<close>

function batches :: "string list \<Rightarrow> nat \<Rightarrow> string list list" where
  "batches ids i =
     (if i < length ids
      then slice ids (int i) (int i + int MAX_BATCH) # batches ids (i + MAX_BATCH)
      else [])"
  by pat_completeness auto
termination
  by (relation "measure (\<lambda>(ids, i). length ids - i)") (auto simp: MAX_BATCH_def)

text \<open>Phase normalisation: the first character of the first phase that matches \<open>[1-4]\<close>.\<close>

definition normalizePhase :: "CtStudy \<Rightarrow> string" where
  "normalizePhase s =
     (let raw = (case designModule s of
                   None \<Rightarrow> ''NA''
                 | Some dm \<Rightarrow>
                     (case phases_ct dm of
                        None \<Rightarrow> ''NA''
                      | Some [] \<Rightarrow> ''NA''
                      | Some (p # ps) \<Rightarrow> p))
      in case find (\<lambda>c. c \<in> set ''1234'') raw of
           Some c \<Rightarrow> [c]
         | None \<Rightarrow> ''NA'')"

definition trimStudy :: "CtStudy \<Rightarrow> TrialMeta" where
  "trimStudy s =
     \<lparr>nctId_tm = nctId_ct s,
      phase = normalizePhase s,
      fundedBy = (case sponsorCollaboratorsModule s of
                    None \<Rightarrow> None
                  | Some m \<Rightarrow> (case leadSponsor m of None \<Rightarrow> None | Some l \<Rightarrow> class_ct l)),
      overallStatus = (case statusModule s of None \<Rightarrow> None | Some m \<Rightarrow> overallStatus_ct m)\<rparr>"

definition fetchTrialMeta ::
  "nat \<Rightarrow> Upstream \<Rightarrow> string list \<Rightarrow> CtRequest list \<times> TrialMeta list Outcome" where
  "fetchTrialMeta bound up ids =
     (case fetchBatches bound up ids 0 [] [] of
        (sent, Returned out) \<Rightarrow> (sent, Returned (map trimStudy out))
      | (sent, Thrown m) \<Rightarrow> (sent, Thrown m)
      | (sent, Running) \<Rightarrow> (sent, Running))"

text \<open>
  The route handlers. A response is a status with a JSON payload; a handler whose fetch is
  still running has not responded. The GET handler reads the decoded \<open>ids\<close> query value, the
  POST handler the parsed request body (\<open>BadJson m\<close> when \<open>req.json()\<close> throws, otherwise
  the \<open>ids\<close> member when it is an array).
\<close>

datatype Payload = ErrorBody string | MetaBody "TrialMeta list"

record HttpResponse =
  code :: nat
  payload :: Payload

datatype PostBody = BadJson string | JsonBody "string list option"

definition catchStatus :: "string \<Rightarrow> nat" where
  "catchStatus m = (if includesStr m ''ClinicalTrials'' then 502 else 500)"

definition respond ::
  "CtRequest list \<times> TrialMeta list Outcome \<Rightarrow> CtRequest list \<times> HttpResponse option" where
  "respond run =
     (case run of
        (sent, Returned trimmed) \<Rightarrow> (sent, Some \<lparr>code = 200, payload = MetaBody trimmed\<rparr>)
      | (sent, Thrown m) \<Rightarrow> (sent, Some \<lparr>code = catchStatus m, payload = ErrorBody m\<rparr>)
      | (sent, Running) \<Rightarrow> (sent, None))"

definition GET_meta ::
  "nat \<Rightarrow> Upstream \<Rightarrow> string option \<Rightarrow> CtRequest list \<times> HttpResponse option" where
  "GET_meta bound up idsQuery =
     (let idsParam = (case idsQuery of None \<Rightarrow> [] | Some v \<Rightarrow> v);
          ids = filter (\<lambda>i. length i > 0) (map trim (splitOn CHR '','' idsParam))
      in if length ids = 0
         then ([], Some \<lparr>code = 400, payload = ErrorBody ''Missing ids query parameter''\<rparr>)
         else respond (fetchTrialMeta bound up ids))"

definition POST_meta ::
  "nat \<Rightarrow> Upstream \<Rightarrow> PostBody \<Rightarrow> CtRequest list \<times> HttpResponse option" where
  "POST_meta bound up reqBody =
     (case reqBody of
        BadJson m \<Rightarrow> ([], Some \<lparr>code = catchStatus m, payload = ErrorBody m\<rparr>)
      | JsonBody idsMember \<Rightarrow>
          (let ids = (case idsMember of None \<Rightarrow> [] | Some xs \<Rightarrow> filter (\<lambda>i. i \<noteq> []) xs)
           in if length ids = 0
              then ([], Some \<lparr>code = 400,
                               payload = ErrorBody ''Request body must include 'ids' array''\<rparr>)
              else respond (fetchTrialMeta bound up ids)))"

text \<open>
  The client hook \<open>useTrialMeta\<close>: the request its query function sends, the handler that
  serves it, and the value the query function returns. The framework's reading of the
  \<open>ids\<close> query value from the request URL is a parameter (\<open>searchParamsGet\<close>); the JSON
  body of a POST arrives as the \<open>ids\<close> array it was built from.
\<close>

datatype ClientRequest = GetRequest string | PostRequest string "string list"

definition metaUrl :: "string list \<Rightarrow> string" where
  "metaUrl ids = ''/api/trial-meta?ids='' @ joinWith '','' ids"

definition clientRequest :: "string list \<Rightarrow> ClientRequest" where
  "clientRequest ids =
     (let shouldPost = (length (metaUrl ids) > 1800)
      in if shouldPost then PostRequest ''/api/trial-meta'' ids else GetRequest (metaUrl ids))"

definition serve ::
  "nat \<Rightarrow> Upstream \<Rightarrow> (string \<Rightarrow> string option) \<Rightarrow> ClientRequest
   \<Rightarrow> CtRequest list \<times> HttpResponse option" where
  "serve bound up searchParamsGet rq =
     (case rq of
        GetRequest url \<Rightarrow> GET_meta bound up (searchParamsGet url)
      | PostRequest url ids \<Rightarrow> POST_meta bound up (JsonBody (Some ids)))"

definition queryFn ::
  "nat \<Rightarrow> Upstream \<Rightarrow> (string \<Rightarrow> string option) \<Rightarrow> string list \<Rightarrow> Payload Outcome" where
  "queryFn bound up searchParamsGet ids =
     (if length ids = 0 then Returned (MetaBody [])
      else (case snd (serve bound up searchParamsGet (clientRequest ids)) of
              None \<Rightarrow> Running
            | Some res \<Rightarrow>
                if \<not> ok (code res)
                then Thrown (''Failed to fetch trial meta ('' @ stringOfNat (code res) @ '')'')
                else Returned (payload res)))"

text \<open>
  A registry for the examples: it holds a list of studies and answers a request with the
  studies whose identifier is one of the comma-separated \<open>filter.ids\<close>, on a single page.
\<close>

definition registry :: "CtStudy list \<Rightarrow> Upstream" where
  "registry held rq =
     Inr \<lparr>status = 200,
          studies = Some (filter (\<lambda>s. nctId_ct s \<in> set (splitOn CHR '','' (filter_ids rq))) held),
          nextPageToken = None\<rparr>"

definition study1 :: CtStudy where
  "study1 =
     \<lparr>nctId_ct = ''NCT01'',
      designModule = Some \<lparr>phases_ct = Some [''PHASE2'']\<rparr>,
      sponsorCollaboratorsModule = Some \<lparr>leadSponsor = Some \<lparr>class_ct = Some ''OTHER''\<rparr>\<rparr>,
      statusModule = Some \<lparr>overallStatus_ct = Some ''COMPLETED''\<rparr>\<rparr>"

definition study2 :: CtStudy where
  "study2 =
     \<lparr>nctId_ct = ''NCT02'',
      designModule = Some \<lparr>phases_ct = Some [''PHASE3'']\<rparr>,
      sponsorCollaboratorsModule = Some \<lparr>leadSponsor = Some \<lparr>class_ct = Some ''INDUSTRY''\<rparr>\<rparr>,
      statusModule = Some \<lparr>overallStatus_ct = Some ''RECRUITING''\<rparr>\<rparr>"

text \<open>A study with no design module, and one whose first phase names no phase number.\<close>

definition study3 :: CtStudy where
  "study3 =
     \<lparr>nctId_ct = ''NCT03'', designModule = None, sponsorCollaboratorsModule = None,
      statusModule = None\<rparr>"

definition study4 :: CtStudy where
  "study4 =
     \<lparr>nctId_ct = ''NCT04'',
      designModule = Some \<lparr>phases_ct = Some [''EARLY_PHASE'', ''PHASE1'']\<rparr>,
      sponsorCollaboratorsModule = None, statusModule = None\<rparr>"

text \<open>
  A registry that answers the first request of a batch with one study and a continuation
  token, and the request for the continuation page with status 503.
\<close>

definition brokenRegistry :: Upstream where
  "brokenRegistry rq =
     (if pageToken rq = None
      then Inr \<lparr>status = 200, studies = Some [study1], nextPageToken = Some ''page2''\<rparr>
      else Inr \<lparr>status = 503, studies = None, nextPageToken = None\<rparr>)"

text \<open>A request is rejected when the registry answers it with a response that is not ok.\<close>

definition rejected :: "Upstream \<Rightarrow> CtRequest \<Rightarrow> bool" where
  "rejected up rq = (case up rq of Inl m \<Rightarrow> False | Inr res \<Rightarrow> \<not> ok (status res))"

text \<open>
  The first element of a study's free-text phase list, when the study has a design module
  with a non-empty phase list.
\<close>

definition firstPhase :: "CtStudy \<Rightarrow> string option" where
  "firstPhase s =
     (case designModule s of
        None \<Rightarrow> None
      | Some dm \<Rightarrow>
          (case phases_ct dm of
             None \<Rightarrow> None
           | Some ps \<Rightarrow> (case ps of [] \<Rightarrow> None | p # _ \<Rightarrow> Some p)))"

text \<open>
  A run aborts on rejection when every rejected request among those it sent is the last one
  sent and the run ends by throwing the error built from that response's status.
\<close>

definition abortsOnRejection :: "Upstream \<Rightarrow> CtRequest list \<times> 'a Outcome \<Rightarrow> bool" where
  "abortsOnRejection up run =
     (\<forall>rq \<in> set (fst run). \<forall>res. up rq = Inr res \<and> \<not> ok (status res)
        \<longrightarrow> snd run = Thrown (requestFailed (status res)) \<and> last (fst run) = rq)"

text \<open>A registry answers on a single page when every response is ok and has no token.\<close>

definition singlePage :: "Upstream \<Rightarrow> bool" where
  "singlePage up =
     (\<forall>rq. case up rq of
             Inl m \<Rightarrow> False
           | Inr res \<Rightarrow> ok (status res) \<and> \<not> truthy (nextPageToken res))"

text \<open>
  An identifier is clean when it holds no comma and neither starts nor ends with white
  space; the empty identifier is clean.
\<close>

definition cleanId :: "string \<Rightarrow> bool" where
  "cleanId i =
     (CHR '','' \<notin> set i
      \<and> (i = [] \<or> (\<not> isWhiteSpace (hd i) \<and> \<not> isWhiteSpace (last i))))"

text \<open>
  Example identifier lists: 150 distinct identifiers, and the same list followed by a second
  copy of its first identifier; a study held under that identifier.
\<close>

definition ids150 :: "string list" where
  "ids150 = map (\<lambda>n. ''NCT'' @ stringOfNat n) [0..<150]"

definition ids151 :: "string list" where
  "ids151 = ids150 @ [''NCT0'']"

definition study0 :: CtStudy where
  "study0 = study1\<lparr>nctId_ct := ''NCT0''\<rparr>"

section \<open>The investigators search endpoint\<close>

text \<open>
  The query parameters of a request as \<open>searchParams.get\<close> returns them: \<open>None\<close> for a
  parameter that is not in the URL.
\<close>

record SearchRequest =
  zip_q :: "string option"
  radius_q :: "string option"
  page_q :: "string option"
  startYear_q :: "string option"
  endYear_q :: "string option"

text \<open>A row of the \<open>investigators\<close> table, with the columns the handler computes from.\<close>

record Row =
  row_id :: int
  row_name :: string
  row_zip :: "string option"
  row_nctId :: "string option"
  row_startDate :: "string option"

datatype WhereExpr =
  InArrayZip "string list"
| GteStartDate string
| LteStartDate string
| And "WhereExpr list"

record DbQuery =
  whereExpr :: WhereExpr
  orderBy :: string
  limit :: int
  offset :: jsnum

text \<open>
  What the handler calls and does not define: \<open>Number\<close> on the text of a parameter, the
  \<open>zipcodes\<close> package and the two database queries (rows and count).
\<close>

record Env =
  jsNumber :: "string \<Rightarrow> jsnum"
  zipLookup :: "string \<Rightarrow> bool"
  zipRadius :: "string \<Rightarrow> jsnum \<Rightarrow> string list"
  zipDistance :: "string \<Rightarrow> string \<Rightarrow> jsnum"
  dbSelect :: "DbQuery \<Rightarrow> Row list"
  dbCount :: "WhereExpr \<Rightarrow> int"

datatype InvestigatorsResponse =
  ErrorResponse nat string
| Results "Physician list" int

text \<open>\<open>/^[0-9]{n}$/\<close>, and \<open>Number\<close> on a string of decimal digits.\<close>

definition isDigit :: "char \<Rightarrow> bool" where
  "isDigit c = (c \<in> set ''0123456789'')"

definition matchesDigits :: "nat \<Rightarrow> string \<Rightarrow> bool" where
  "matchesDigits n s = (length s = n \<and> list_all isDigit s)"

definition digitValue :: "char \<Rightarrow> nat" where
  "digitValue c =
     (case map_of (zip ''0123456789'' [0, 1, 2, 3, 4, 5, 6, 7, 8, 9]) c of
        Some d \<Rightarrow> d
      | None \<Rightarrow> 0)"

definition numberOfDigits :: "string \<Rightarrow> nat" where
  "numberOfDigits s = foldl (\<lambda>a c. 10 * a + digitValue c) 0 s"

text \<open>\<open>!y || /^[0-9]{4}$/.test(y)\<close>: a null or empty year is accepted as no bound.\<close>

definition isValidYear :: "string option \<Rightarrow> bool" where
  "isValidYear y = (\<not> truthy y \<or> matchesDigits 4 (case y of None \<Rightarrow> [] | Some s \<Rightarrow> s))"

text \<open>\<open>startYear ? Number(startYear) : undefined\<close>, for a year that passed validation.\<close>

definition yearNum :: "string option \<Rightarrow> nat option" where
  "yearNum y = (case y of None \<Rightarrow> None | Some s \<Rightarrow> if s = [] then None else Some (numberOfDigits s))"

text \<open>A number or \<open>undefined\<close> is truthy when it is a number other than 0.\<close>

definition truthyNum :: "nat option \<Rightarrow> bool" where
  "truthyNum n = (case n of None \<Rightarrow> False | Some v \<Rightarrow> v \<noteq> 0)"

text \<open>The years after the swap: \<open>if (startYearNum && endYearNum && startYearNum > endYearNum)\<close>.\<close>

definition swappedYears :: "SearchRequest \<Rightarrow> nat option \<times> nat option" where
  "swappedYears rq =
     (let startYearNum = yearNum (startYear_q rq);
          endYearNum = yearNum (endYear_q rq)
      in if truthyNum startYearNum \<and> truthyNum endYearNum
            \<and> the startYearNum > the endYearNum
         then (endYearNum, startYearNum)
         else (startYearNum, endYearNum))"

text \<open>\<open>Math.max(Number(searchParams.get("page") ?? "1"), 1)\<close>\<close>

definition pageText :: "SearchRequest \<Rightarrow> string" where
  "pageText rq = (case page_q rq of None \<Rightarrow> ''1'' | Some p \<Rightarrow> p)"

definition pageNumber :: "Env \<Rightarrow> SearchRequest \<Rightarrow> jsnum" where
  "pageNumber env rq = mathMax (jsNumber env (pageText rq)) 1"

text \<open>
  The handler up to the database calls: the error response it returns early, or the query it
  sends for the rows. The message of the first error has a non-breaking hyphen in the source.
\<close>

definition investigatorsQuery :: "Env \<Rightarrow> SearchRequest \<Rightarrow> (nat \<times> string) + DbQuery" where
  "investigatorsQuery env rq =
     (let zipText = (case zip_q rq of None \<Rightarrow> [] | Some z \<Rightarrow> z);
          radiusMiles = jsNumber env (case radius_q rq of None \<Rightarrow> ''15'' | Some r \<Rightarrow> r);
          page = pageNumber env rq
      in if \<not> isValidYear (startYear_q rq) \<or> \<not> isValidYear (endYear_q rq)
         then Inl (400, ''startYear/endYear must be 4-digit numbers'')
         else (let (startYearNum, endYearNum) = swappedYears rq
               in if \<not> matchesDigits 5 zipText then Inl (400, ''Invalid zip'')
                  else if \<not> zipLookup env zipText then Inl (404, ''Unknown zip'')
                  else (let zipList = zipRadius env zipText radiusMiles;
                            offset = timesPositive (minusNum page 1) (real_of_int ITEMS_PER_PAGE);
                            whereClauses =
                              [InArrayZip zipList]
                              @ (if truthyNum startYearNum
                                 then [GteStartDate (stringOfNat (the startYearNum) @ ''-01-01'')]
                                 else [])
                              @ (if truthyNum endYearNum
                                 then [LteStartDate (stringOfNat (the endYearNum) @ ''-12-31'')]
                                 else []);
                            whereExpr = (if length whereClauses > 1 then And whereClauses
                                         else hd whereClauses)
                        in Inr \<lparr>whereExpr = whereExpr, orderBy = ''start_date desc'',
                                limit = ITEMS_PER_PAGE, offset = offset\<rparr>)))"

text \<open>The post-processing of a row into a \<open>Physician\<close>.\<close>

definition toPhysician :: "Env \<Rightarrow> string \<Rightarrow> Row \<Rightarrow> Physician" where
  "toPhysician env zipText row =
     \<lparr>id_p = row_id row,
      name = row_name row,
      nctId = row_nctId row,
      distance = (case row_zip row of
                    None \<Rightarrow> PosInfinity
                  | Some z \<Rightarrow> if matchesDigits 5 z then zipDistance env zipText z else PosInfinity),
      startDate = (case row_startDate row of
                     None \<Rightarrow> []
                   | Some d \<Rightarrow> if d = [] then [] else d)\<rparr>"

definition GET_investigators :: "Env \<Rightarrow> SearchRequest \<Rightarrow> InvestigatorsResponse" where
  "GET_investigators env rq =
     (case investigatorsQuery env rq of
        Inl (st, message) \<Rightarrow> ErrorResponse st message
      | Inr q \<Rightarrow>
          Results
            (map (toPhysician env (case zip_q rq of None \<Rightarrow> [] | Some z \<Rightarrow> z)) (dbSelect env q))
            (dbCount env (whereExpr q)))"

text \<open>
  An environment for the examples: \<open>Number\<close> on an optional minus sign followed by decimal
  digits (anything else is \<open>NaN\<close> here), every postal code known, and a database that
  answers with no rows.
\<close>

definition decimalNumber :: "string \<Rightarrow> jsnum" where
  "decimalNumber s =
     (case s of
        [] \<Rightarrow> Num 0
      | c # cs \<Rightarrow>
          if c = CHR ''-'' \<and> cs \<noteq> [] \<and> list_all isDigit cs
          then Num (- real (numberOfDigits cs))
          else if list_all isDigit s then Num (real (numberOfDigits s))
          else NaN)"

definition exampleEnv :: Env where
  "exampleEnv =
     \<lparr>jsNumber = decimalNumber, zipLookup = (\<lambda>z. True), zipRadius = (\<lambda>z r. [z]),
      zipDistance = (\<lambda>a b. Num 0), dbSelect = (\<lambda>q. []), dbCount = (\<lambda>w. 0)\<rparr>"

definition yearsRequest :: "string \<Rightarrow> string \<Rightarrow> SearchRequest" where
  "yearsRequest sy ey =
     \<lparr>zip_q = Some ''77030'', radius_q = Some ''15'', page_q = Some ''1'',
      startYear_q = Some sy, endYear_q = Some ey\<rparr>"

definition pageRequest :: "string \<Rightarrow> SearchRequest" where
  "pageRequest p =
     \<lparr>zip_q = Some ''77030'', radius_q = None, page_q = Some p,
      startYear_q = None, endYear_q = None\<rparr>"

section \<open>Properties of the search page\<close>

lemma sublist_slice: "sublist (slice xs a b) xs"
  unfolding slice_def Let_def
  by (rule sublist_order.order.trans [OF sublist_take sublist_drop])

lemma toLowerCase_industry: "toLowerCase ''industry'' = ''industry''"
  by (simp add: toLowerCase_def toLowerChar_def)

lemma toLowerCase_recruit: "toLowerCase ''recruit'' = ''recruit''"
  by (simp add: toLowerCase_def toLowerChar_def)

lemma keepPhysician_satisfies:
  "keepPhysician f mm p \<Longrightarrow> satisfiesPredicate f mm p"
  by (auto simp: keepPhysician_def satisfiesPredicate_def lookupMeta_def startsWith_def
        toLowerCase_industry toLowerCase_recruit
      split: option.splits if_splits)

lemma filtered_active:
  assumes "isTrialFilterActive (filters st)" and "allPhysicians st = Some full"
  shows "filteredPhysicians st = filter (keepPhysician (filters st) (metaMap st)) full"
  using assms
  by (auto simp: filteredPhysicians_def baseSet_def isTrialFilterActive_def Let_def)

lemma display_sublist_filtered: "sublist (displayPhysicians st) (filteredPhysicians st)"
  by (simp add: displayPhysicians_def paginatedPhysicians_def Let_def sublist_slice)

lemma filtered_when_active:
  assumes "isTrialFilterActive (filters st)"
  shows "filteredPhysicians st = filter (keepPhysician (filters st) (metaMap st)) (baseSet st)"
  using assms
  by (auto simp: filteredPhysicians_def isTrialFilterActive_def Let_def)

lemma keepPhysician_needs_meta:
  "(case nctId p of None \<Rightarrow> True | Some k \<Rightarrow> mm k = None) \<Longrightarrow> \<not> keepPhysician f mm p"
  by (auto simp: keepPhysician_def lookupMeta_def split: option.splits)

lemma metaMap_no_data: "metaData st = None \<Longrightarrow> metaMap st = Map.empty"
  by (simp add: metaMap_def metaMapOf_def trialMeta_def)

text \<open>
  Claim C1. Under an active filter every element of the filtered list, and of the page cut
  from it, satisfies the filter predicate: it has an attributes record, its phase is in the
  phase set when the set is non-empty, its sponsor class is \<open>industry\<close> up to case when
  the sponsor constraint is industry-only, and its status starts with \<open>recruit\<close> up to case
  when recruiting-only is set. Once the whole result set has arrived, both lists are
  order-preserving subsequences of that whole set.
\<close>

theorem filtered_output_subsequence_satisfying_predicate:
  assumes "isTrialFilterActive (filters st)"
  shows "(\<forall>full. allPhysicians st = Some full
            \<longrightarrow> subseq (filteredPhysicians st) full \<and> subseq (displayPhysicians st) full)
       \<and> (\<forall>p \<in> set (filteredPhysicians st). satisfiesPredicate (filters st) (metaMap st) p)
       \<and> (\<forall>p \<in> set (displayPhysicians st). satisfiesPredicate (filters st) (metaMap st) p)"
proof -
  have d: "sublist (displayPhysicians st) (filteredPhysicians st)"
    by (rule display_sublist_filtered)
  have s: "\<forall>full. allPhysicians st = Some full
            \<longrightarrow> subseq (filteredPhysicians st) full \<and> subseq (displayPhysicians st) full"
  proof (intro allI impI)
    fix full
    assume "allPhysicians st = Some full"
    with assms have "filteredPhysicians st = filter (keepPhysician (filters st) (metaMap st)) full"
      by (rule filtered_active)
    then have s1: "subseq (filteredPhysicians st) full"
      by simp
    then have "subseq (displayPhysicians st) full"
      using d by (meson sublist_imp_subseq subseq_order.trans)
    with s1 show "subseq (filteredPhysicians st) full \<and> subseq (displayPhysicians st) full"
      by simp
  qed
  have p1: "\<forall>p \<in> set (filteredPhysicians st). satisfiesPredicate (filters st) (metaMap st) p"
    using assms by (simp add: filtered_when_active keepPhysician_satisfies)
  have "set (displayPhysicians st) \<subseteq> set (filteredPhysicians st)"
    using d by (rule set_mono_sublist)
  with p1 have p2: "\<forall>p \<in> set (displayPhysicians st). satisfiesPredicate (filters st) (metaMap st) p"
    by blast
  from s p1 p2 show ?thesis by blast
qed

theorem filtered_output_subsequence_witness:
  "isTrialFilterActive (filters (fullLoaded industryRecruiting))
   \<and> allPhysicians (fullLoaded industryRecruiting) = Some [inv2, inv1, inv3, inv4]
   \<and> filteredPhysicians (fullLoaded industryRecruiting) = [inv2]
   \<and> subseq (filteredPhysicians (fullLoaded industryRecruiting)) [inv2, inv1, inv3, inv4]
   \<and> subseq (displayPhysicians (fullLoaded industryRecruiting)) [inv2, inv1, inv3, inv4]
   \<and> displayPhysicians (fullLoaded industryRecruiting) = [inv2]
   \<and> satisfiesPredicate industryRecruiting (metaMap (fullLoaded industryRecruiting)) inv2"
proof -
  note defs =
    isTrialFilterActive_def baseSet_def trialMeta_def metaMapOf_def metaMap_def lookupMeta_def
    keepPhysician_def filteredPhysicians_def paginatedPhysicians_def displayPhysicians_def
    slice_def ITEMS_PER_PAGE_def toLowerCase_def toLowerChar_def startsWith_def
    fetchAllEffect_def fetchAllThen_def fetchAllFinally_def fetchAllSucceeded_def setFilters_def
    fullLoaded_def pageShown_def industryRecruiting_def DEFAULT_FILTERS_def
    inv1_def inv2_def inv3_def inv4_def meta12_def houston_def
  have a: "isTrialFilterActive (filters (fullLoaded industryRecruiting))"
    by (simp add: defs)
  have b: "allPhysicians (fullLoaded industryRecruiting) = Some [inv2, inv1, inv3, inv4]"
    by (simp add: defs)
  have c: "filteredPhysicians (fullLoaded industryRecruiting) = [inv2]"
    by (simp add: defs)
  have d: "filters (fullLoaded industryRecruiting) = industryRecruiting"
    and e: "displayPhysicians (fullLoaded industryRecruiting) = [inv2]"
    by (simp_all add: defs)
  show ?thesis
    using filtered_output_subsequence_satisfying_predicate [OF a] a b c d e by simp
qed

text \<open>
  Claim C4. With the identity filter (no phase, sponsor \<open>Any\<close>, recruiting-only off) the
  filtered list and the displayed list are the server page as it came, whatever the current
  page number and the other state cells hold, and the count shown is the server's
  \<open>totalCount\<close> (an empty list and 0 while no page has arrived).
\<close>

theorem identity_filter_shows_server_page:
  assumes "filters st = DEFAULT_FILTERS"
  shows "filteredPhysicians st = (case data st of None \<Rightarrow> [] | Some d \<Rightarrow> physicians d)
       \<and> displayPhysicians st = (case data st of None \<Rightarrow> [] | Some d \<Rightarrow> physicians d)
       \<and> totalCountToShow st = (case data st of None \<Rightarrow> 0 | Some d \<Rightarrow> totalCount d)"
  using assms
  by (auto simp: displayPhysicians_def paginatedPhysicians_def filteredPhysicians_def
      totalCountToShow_def serverTotalCount_def isTrialFilterActive_def DEFAULT_FILTERS_def
      baseSet_def Let_def
      split: option.splits)

theorem identity_filter_shows_server_page_witness:
  "filters pageShown = DEFAULT_FILTERS
   \<and> filteredPhysicians pageShown = [inv2, inv1, inv3]
   \<and> displayPhysicians pageShown = [inv2, inv1, inv3]
   \<and> totalCountToShow pageShown = 14"
proof -
  have a: "filters pageShown = DEFAULT_FILTERS"
    by (simp add: pageShown_def)
  have b: "data pageShown = Some \<lparr>physicians = [inv2, inv1, inv3], totalCount = 14\<rparr>"
    by (simp add: pageShown_def)
  show ?thesis
    using identity_filter_shows_server_page [OF a] a b by simp
qed

text \<open>
  Claim C5. Under an active filter an investigator with no trial identifier, or whose
  identifier has no attributes record in the lookup, is in neither the filtered list nor the
  displayed page. When the metadata request has failed (no data, an error) the filtered list
  is empty, the count shown is 0, no card is rendered and the metadata warning is rendered;
  the result is a value, not an exception. Under the identity filter every investigator of
  the server page is displayed, with or without an identifier.
\<close>

theorem unattributable_investigators_fail_closed:
  "(isTrialFilterActive (filters st)
      \<and> (case nctId p of None \<Rightarrow> True | Some k \<Rightarrow> metaMap st k = None)
    \<longrightarrow> p \<notin> set (filteredPhysicians st) \<and> p \<notin> set (displayPhysicians st))
   \<and> (isTrialFilterActive (filters st) \<and> metaData st = None \<and> metaError st \<noteq> None
    \<longrightarrow> filteredPhysicians st = [] \<and> displayPhysicians st = [] \<and> totalCountToShow st = 0
        \<and> metaWarning (render st)
        \<and> (\<forall>ps. body (render st) \<noteq> Cards ps))
   \<and> (filters st = DEFAULT_FILTERS \<and> data st = Some d \<and> p \<in> set (physicians d)
    \<longrightarrow> p \<in> set (filteredPhysicians st) \<and> p \<in> set (displayPhysicians st))"
proof (intro conjI impI)
  assume h: "isTrialFilterActive (filters st)
      \<and> (case nctId p of None \<Rightarrow> True | Some k \<Rightarrow> metaMap st k = None)"
  then have "\<not> keepPhysician (filters st) (metaMap st) p"
    by (simp add: keepPhysician_needs_meta)
  with h show a: "p \<notin> set (filteredPhysicians st)"
    by (simp add: filtered_when_active)
  have "set (displayPhysicians st) \<subseteq> set (filteredPhysicians st)"
    by (rule set_mono_sublist [OF display_sublist_filtered])
  with a show "p \<notin> set (displayPhysicians st)"
    by blast
next
  assume h: "isTrialFilterActive (filters st) \<and> metaData st = None \<and> metaError st \<noteq> None"
  then have "\<And>q. \<not> keepPhysician (filters st) (metaMap st) q"
    by (simp add: metaMap_no_data keepPhysician_def lookupMeta_def split: option.splits)
  with h show f: "filteredPhysicians st = []"
    by (simp add: filtered_when_active)
  then show d: "displayPhysicians st = []"
    by (simp add: displayPhysicians_def paginatedPhysicians_def slice_def)
  from h f show "totalCountToShow st = 0"
    by (simp add: totalCountToShow_def filteredTotalCount_def)
  from h show "metaWarning (render st)"
    by (simp add: render_def)
  from d show "\<forall>ps. body (render st) \<noteq> Cards ps"
    by (simp add: render_def)
next
  assume h: "filters st = DEFAULT_FILTERS \<and> data st = Some d \<and> p \<in> set (physicians d)"
  then have "filteredPhysicians st = physicians d" and "displayPhysicians st = physicians d"
    by (auto simp: displayPhysicians_def paginatedPhysicians_def filteredPhysicians_def
        isTrialFilterActive_def DEFAULT_FILTERS_def baseSet_def Let_def)
  with h show "p \<in> set (filteredPhysicians st)" and "p \<in> set (displayPhysicians st)"
    by simp_all
qed

theorem unattributable_investigators_witness:
  "(isTrialFilterActive (filters (fullLoaded phaseTwo)) \<and> nctId inv3 = None
      \<and> inv3 \<in> set [inv2, inv1, inv3, inv4]
      \<and> allPhysicians (fullLoaded phaseTwo) = Some [inv2, inv1, inv3, inv4]
      \<and> inv3 \<notin> set (filteredPhysicians (fullLoaded phaseTwo))
      \<and> inv3 \<notin> set (displayPhysicians (fullLoaded phaseTwo)))
   \<and> (nctId inv4 = Some ''NCT09'' \<and> metaMap (fullLoaded phaseTwo) ''NCT09'' = None
      \<and> inv4 \<notin> set (filteredPhysicians (fullLoaded phaseTwo)))
   \<and> (isTrialFilterActive (filters metaFailed) \<and> metaData metaFailed = None
      \<and> metaError metaFailed \<noteq> None
      \<and> filteredPhysicians metaFailed = [] \<and> displayPhysicians metaFailed = []
      \<and> totalCountToShow metaFailed = 0 \<and> metaWarning (render metaFailed)
      \<and> body (render metaFailed) = EmptyPlaceholder ''No PIs match the selected filters.'')
   \<and> (filters pageShown = DEFAULT_FILTERS \<and> inv3 \<in> set (displayPhysicians pageShown))"
proof -
  note defs =
    isTrialFilterActive_def baseSet_def trialMeta_def metaMapOf_def metaMap_def lookupMeta_def
    keepPhysician_def filteredPhysicians_def paginatedPhysicians_def displayPhysicians_def
    slice_def ITEMS_PER_PAGE_def toLowerCase_def toLowerChar_def startsWith_def
    fetchAllEffect_def fetchAllThen_def fetchAllFinally_def fetchAllSucceeded_def setFilters_def
    fullLoaded_def pageShown_def industryRecruiting_def DEFAULT_FILTERS_def
    inv1_def inv2_def inv3_def inv4_def meta12_def houston_def
    phaseTwo_def metaFailed_def filteredTotalCount_def totalCountToShow_def render_def truthy_def
  have a: "isTrialFilterActive (filters (fullLoaded phaseTwo))
      \<and> (case nctId inv3 of None \<Rightarrow> True | Some k \<Rightarrow> metaMap (fullLoaded phaseTwo) k = None)"
    by (simp add: defs)
  have a': "isTrialFilterActive (filters (fullLoaded phaseTwo))
      \<and> (case nctId inv4 of None \<Rightarrow> True | Some k \<Rightarrow> metaMap (fullLoaded phaseTwo) k = None)"
    by (simp add: defs)
  have b: "isTrialFilterActive (filters metaFailed) \<and> metaData metaFailed = None
      \<and> metaError metaFailed \<noteq> None"
    by (simp add: defs)
  have c: "filters pageShown = DEFAULT_FILTERS
      \<and> data pageShown = Some \<lparr>physicians = [inv2, inv1, inv3], totalCount = 14\<rparr>
      \<and> inv3 \<in> set (physicians \<lparr>physicians = [inv2, inv1, inv3], totalCount = 14\<rparr>)"
    by (simp add: pageShown_def)
  have e: "nctId inv3 = None" "nctId inv4 = Some ''NCT09''"
    "metaMap (fullLoaded phaseTwo) ''NCT09'' = None"
    "allPhysicians (fullLoaded phaseTwo) = Some [inv2, inv1, inv3, inv4]"
    "body (render metaFailed) = EmptyPlaceholder ''No PIs match the selected filters.''"
    by (simp_all add: defs)
  note t = unattributable_investigators_fail_closed
  show ?thesis
    using t [of "fullLoaded phaseTwo" inv3, THEN conjunct1, rule_format, OF a]
      t [of "fullLoaded phaseTwo" inv4, THEN conjunct1, rule_format, OF a']
      t [of metaFailed, THEN conjunct2, THEN conjunct1, rule_format, OF b]
      t [of pageShown inv3, THEN conjunct2, THEN conjunct2, rule_format, OF c]
      a b c e
    by simp
qed

text \<open>
  Claim C2, as stated, fails: after the request for the whole set is rejected the page keeps
  no whole set, so the base falls back to the server page, and the cards of that page that
  pass the filter are rendered next to the error message.
\<close>

theorem fullset_failure_counterexample:
  "isTrialFilterActive phaseTwo
   \<and> data (applyFilterFetchFails phaseTwo (Some ''Request failed with status 500'') pageShown)
       = Some \<lparr>physicians = [inv2, inv1, inv3], totalCount = 14\<rparr>
   \<and> allPhysicians (applyFilterFetchFails phaseTwo (Some ''Request failed with status 500'') pageShown)
       = None
   \<and> allError (applyFilterFetchFails phaseTwo (Some ''Request failed with status 500'') pageShown)
       = Some ''Request failed with status 500''
   \<and> displayPhysicians
        (applyFilterFetchFails phaseTwo (Some ''Request failed with status 500'') pageShown)
       = [inv1]
   \<and> body (render
        (applyFilterFetchFails phaseTwo (Some ''Request failed with status 500'') pageShown))
       = Cards [inv1]"
  by (simp add: isTrialFilterActive_def baseSet_def trialMeta_def metaMapOf_def metaMap_def lookupMeta_def
      keepPhysician_def filteredPhysicians_def paginatedPhysicians_def displayPhysicians_def
      slice_def ITEMS_PER_PAGE_def toLowerCase_def toLowerChar_def startsWith_def
      fetchAllEffect_def fetchAllCatch_def fetchAllFinally_def fetchAllFailed_def setFilters_def
      applyFilterFetchFails_def render_def truthy_def pageShown_def phaseTwo_def DEFAULT_FILTERS_def
      inv1_def inv2_def inv3_def meta12_def houston_def)

text \<open>
  Claim C2, amended. When a filter is applied to an unfiltered page and the request for the
  whole set is rejected, the error is surfaced (the error message is rendered, the result
  count header is hidden, nothing is loading and no whole set is kept), and the list shown is
  the current server page filtered by the predicate and cut to the current page.
\<close>

theorem fullset_failure_surfaces_error_over_filtered_page:
  assumes "\<not> isTrialFilterActive (filters st0)" and "isTrialFilterActive f"
    and "searchParams st0 \<noteq> None"
  shows "allPhysicians (applyFilterFetchFails f message st0) = None
       \<and> truthy (allError (applyFilterFetchFails f message st0))
       \<and> allErrorMessage (render (applyFilterFetchFails f message st0))
           = allError (applyFilterFetchFails f message st0)
       \<and> \<not> resultsCount (render (applyFilterFetchFails f message st0))
       \<and> \<not> allSkeleton (render (applyFilterFetchFails f message st0))
       \<and> filteredPhysicians (applyFilterFetchFails f message st0)
           = filter (keepPhysician f (metaMap st0))
               (case data st0 of None \<Rightarrow> [] | Some d \<Rightarrow> physicians d)
       \<and> displayPhysicians (applyFilterFetchFails f message st0)
           = slice (filter (keepPhysician f (metaMap st0))
                      (case data st0 of None \<Rightarrow> [] | Some d \<Rightarrow> physicians d))
               ((currentPage st0 - 1) * ITEMS_PER_PAGE)
               ((currentPage st0 - 1) * ITEMS_PER_PAGE + ITEMS_PER_PAGE)"
proof -
  let ?st = "applyFilterFetchFails f message st0"
  have fl: "filters ?st = f" and sp: "searchParams ?st = searchParams st0"
    and dt: "data ?st = data st0" and cp: "currentPage ?st = currentPage st0"
    and md: "metaData ?st = metaData st0"
    by (simp_all add: applyFilterFetchFails_def fetchAllFailed_def fetchAllFinally_def
        fetchAllCatch_def fetchAllEffect_def setFilters_def)
  have ap: "allPhysicians ?st = None"
    using assms
    by (simp add: applyFilterFetchFails_def fetchAllFailed_def fetchAllFinally_def
        fetchAllCatch_def fetchAllEffect_def setFilters_def)
  have er: "truthy (allError ?st)"
    by (simp add: applyFilterFetchFails_def fetchAllFailed_def fetchAllFinally_def
        fetchAllCatch_def truthy_def split: option.splits)
  have ld: "\<not> allLoading ?st"
    by (simp add: applyFilterFetchFails_def fetchAllFailed_def fetchAllFinally_def)
  have mm: "metaMap ?st = metaMap st0"
    by (simp add: metaMap_def trialMeta_def md)
  have bs: "baseSet ?st = (case data st0 of None \<Rightarrow> [] | Some d \<Rightarrow> physicians d)"
    by (simp add: baseSet_def ap dt fl split: bool.splits)
  have fp: "filteredPhysicians ?st = filter (keepPhysician f (metaMap st0))
               (case data st0 of None \<Rightarrow> [] | Some d \<Rightarrow> physicians d)"
    using assms(2) filtered_when_active [of ?st] by (simp add: fl mm bs)
  have dp: "displayPhysicians ?st = slice (filteredPhysicians ?st)
               ((currentPage st0 - 1) * ITEMS_PER_PAGE)
               ((currentPage st0 - 1) * ITEMS_PER_PAGE + ITEMS_PER_PAGE)"
    using assms(2) by (simp add: displayPhysicians_def paginatedPhysicians_def fl cp Let_def)
  show ?thesis
    using ap er ld fp dp by (simp add: render_def)
qed

theorem fullset_failure_witness:
  "\<not> isTrialFilterActive (filters pageShown) \<and> isTrialFilterActive phaseTwo
   \<and> searchParams pageShown \<noteq> None
   \<and> allPhysicians (applyFilterFetchFails phaseTwo None pageShown) = None
   \<and> allErrorMessage (render (applyFilterFetchFails phaseTwo None pageShown))
       = Some ''Failed to fetch all results''
   \<and> \<not> resultsCount (render (applyFilterFetchFails phaseTwo None pageShown))
   \<and> filteredPhysicians (applyFilterFetchFails phaseTwo None pageShown) = [inv1]
   \<and> displayPhysicians (applyFilterFetchFails phaseTwo None pageShown) = [inv1]"
proof -
  note defs =
    isTrialFilterActive_def baseSet_def trialMeta_def metaMapOf_def metaMap_def lookupMeta_def
    keepPhysician_def filteredPhysicians_def paginatedPhysicians_def displayPhysicians_def
    slice_def ITEMS_PER_PAGE_def toLowerCase_def toLowerChar_def startsWith_def
    fetchAllEffect_def fetchAllCatch_def fetchAllFinally_def fetchAllFailed_def setFilters_def
    applyFilterFetchFails_def render_def truthy_def pageShown_def phaseTwo_def DEFAULT_FILTERS_def
    inv1_def inv2_def inv3_def meta12_def houston_def
  have a: "\<not> isTrialFilterActive (filters pageShown)"
    and b: "isTrialFilterActive phaseTwo" and c: "searchParams pageShown \<noteq> None"
    by (simp_all add: defs)
  have e: "allError (applyFilterFetchFails phaseTwo None pageShown)
            = Some ''Failed to fetch all results''"
    "filter (keepPhysician phaseTwo (metaMap pageShown))
        (case data pageShown of None \<Rightarrow> [] | Some d \<Rightarrow> physicians d) = [inv1]"
    "currentPage pageShown = 1"
    by (simp_all add: defs)
  show ?thesis
    using fullset_failure_surfaces_error_over_filtered_page [OF a b c, of None] a b c e
    by (simp add: slice_def ITEMS_PER_PAGE_def)
qed

section \<open>Properties of the trial metadata endpoint\<close>

lemma find_first_match:
  "\<forall>d \<in> set pre. \<not> P d \<Longrightarrow> P c \<Longrightarrow> find P (pre @ c # post) = Some c"
  by (induction pre) auto

lemma find_no_match: "\<forall>d \<in> set xs. \<not> P d \<Longrightarrow> find P xs = None"
  by (induction xs) auto

lemma normalizePhase_raw:
  "normalizePhase s =
     (case find (\<lambda>c. c \<in> set ''1234'') (case firstPhase s of None \<Rightarrow> ''NA'' | Some p \<Rightarrow> p) of
        Some c \<Rightarrow> [c] | None \<Rightarrow> ''NA'')"
  by (simp add: normalizePhase_def firstPhase_def split: option.splits list.splits)

text \<open>
  Claim C7. The normalised phase of a raw study is the first character of the first element
  of its phase list that matches \<open>[1-4]\<close>, as a one-character string, and \<open>NA\<close> when the
  study has no first phase or the first phase has no such character; it is always one of
  \<open>1\<close>, \<open>2\<close>, \<open>3\<close>, \<open>4\<close>, \<open>NA\<close>, and it is the phase of the trimmed record.
\<close>

theorem phase_normalised_to_digit_or_NA:
  "normalizePhase s \<in> {''1'', ''2'', ''3'', ''4'', ''NA''}
   \<and> phase (trimStudy s) = normalizePhase s
   \<and> (firstPhase s = None \<longrightarrow> normalizePhase s = ''NA'')
   \<and> (\<forall>raw. firstPhase s = Some raw \<and> (\<forall>c \<in> set raw. c \<notin> set ''1234'')
         \<longrightarrow> normalizePhase s = ''NA'')
   \<and> (\<forall>pre c post. firstPhase s = Some (pre @ c # post) \<and> c \<in> set ''1234''
         \<and> (\<forall>d \<in> set pre. d \<notin> set ''1234'')
         \<longrightarrow> normalizePhase s = [c])"
proof (intro conjI allI impI)
  show "normalizePhase s \<in> {''1'', ''2'', ''3'', ''4'', ''NA''}"
  proof (cases "find (\<lambda>c. c \<in> set ''1234'') (case firstPhase s of None \<Rightarrow> ''NA'' | Some p \<Rightarrow> p)")
    case None
    then show ?thesis by (simp add: normalizePhase_raw)
  next
    case (Some c)
    then have "c \<in> set ''1234''"
      by (auto simp: find_Some_iff)
    with Some show ?thesis by (auto simp: normalizePhase_raw)
  qed
  show "phase (trimStudy s) = normalizePhase s"
    by (simp add: trimStudy_def)
next
  assume "firstPhase s = None"
  then show "normalizePhase s = ''NA''"
    by (simp add: normalizePhase_raw)
next
  fix raw
  assume "firstPhase s = Some raw \<and> (\<forall>c \<in> set raw. c \<notin> set ''1234'')"
  then show "normalizePhase s = ''NA''"
    by (simp add: normalizePhase_raw find_no_match)
next
  fix pre c post
  assume h: "firstPhase s = Some (pre @ c # post) \<and> c \<in> set ''1234''
         \<and> (\<forall>d \<in> set pre. d \<notin> set ''1234'')"
  then have "find (\<lambda>c. c \<in> set ''1234'') (pre @ c # post) = Some c"
    by (intro find_first_match) auto
  with h show "normalizePhase s = [c]"
    by (simp add: normalizePhase_raw)
qed

theorem phase_normalised_witness:
  "firstPhase study3 = None \<and> normalizePhase study3 = ''NA''
   \<and> firstPhase study4 = Some ''EARLY_PHASE'' \<and> normalizePhase study4 = ''NA''
   \<and> firstPhase study2 = Some (''PHASE'' @ CHR ''3'' # []) \<and> normalizePhase study2 = ''3''
   \<and> phase (trimStudy study2) = ''3''"
proof -
  have a: "firstPhase study3 = None"
    by (simp add: firstPhase_def study3_def)
  have b: "firstPhase study4 = Some ''EARLY_PHASE'' \<and> (\<forall>c \<in> set ''EARLY_PHASE''. c \<notin> set ''1234'')"
    by (simp add: firstPhase_def study4_def)
  have c: "firstPhase study2 = Some (''PHASE'' @ CHR ''3'' # []) \<and> CHR ''3'' \<in> set ''1234''
         \<and> (\<forall>d \<in> set ''PHASE''. d \<notin> set ''1234'')"
    by (simp add: firstPhase_def study2_def)
  note t = phase_normalised_to_digit_or_NA
  show ?thesis
    using t [of study3, THEN conjunct2, THEN conjunct2, THEN conjunct1, rule_format, OF a]
      t [of study4, THEN conjunct2, THEN conjunct2, THEN conjunct2, THEN conjunct1, rule_format, OF b]
      t [of study2, THEN conjunct2, THEN conjunct2, THEN conjunct2, THEN conjunct2, rule_format, OF c]
      t [of study2, THEN conjunct2, THEN conjunct1]
      a b c
    by simp
qed

declare fetchBatches.simps [simp del] stringOfNat.simps [simp del]

lemma not_rejected_aborts:
  "\<forall>rq \<in> set sent. \<not> rejected up rq \<Longrightarrow> abortsOnRejection up (sent, outcome)"
  by (auto simp: abortsOnRejection_def rejected_def)

lemma returned_not_rejected:
  "abortsOnRejection up (sent, Returned v) \<Longrightarrow> \<forall>rq \<in> set sent. \<not> rejected up rq"
  by (auto simp: abortsOnRejection_def rejected_def split: sum.splits)

lemma fetchPages_aborts:
  "\<forall>rq \<in> set sent. \<not> rejected up rq
   \<Longrightarrow> abortsOnRejection up (fetchPages n up batch tok sent out)"
proof (induction n arbitrary: tok sent out)
  case 0
  then show ?case by (simp add: not_rejected_aborts)
next
  case (Suc n)
  let ?rq = "ctRequest batch tok"
  show ?case
  proof (cases "up ?rq")
    case (Inl m)
    then have "\<forall>rq \<in> set (sent @ [?rq]). \<not> rejected up rq"
      using Suc.prems by (simp add: rejected_def)
    then show ?thesis
      using Inl by (simp add: Let_def not_rejected_aborts)
  next
    case (Inr res)
    show ?thesis
    proof (cases "ok (status res)")
      case False
      then show ?thesis
        using Inr Suc.prems
        by (auto simp: Let_def abortsOnRejection_def rejected_def)
    next
      case True
      then have nr: "\<forall>rq \<in> set (sent @ [?rq]). \<not> rejected up rq"
        using Suc.prems Inr by (simp add: rejected_def)
      show ?thesis
      proof (cases "truthy (nextPageToken res)")
        case True
        with \<open>ok (status res)\<close> Inr Suc.IH [OF nr] show ?thesis
          by (simp add: Let_def)
      next
        case False
        with \<open>ok (status res)\<close> Inr nr show ?thesis
          by (simp add: Let_def not_rejected_aborts)
      qed
    qed
  qed
qed

lemma fetchBatches_aborts:
  "\<forall>rq \<in> set sent. \<not> rejected up rq
   \<Longrightarrow> abortsOnRejection up (fetchBatches bound up ids i sent out)"
proof (induction bound up ids i sent out rule: fetchBatches.induct)
  case (1 bound up ids i sent out)
  show ?case
  proof (cases "i < length ids")
    case False
    then show ?thesis
      using "1.prems" by (simp add: fetchBatches.simps [of bound up ids i] not_rejected_aborts)
  next
    case True
    let ?batch = "slice ids (int i) (int i + int MAX_BATCH)"
    obtain sent' outcome where run: "fetchPages bound up ?batch None sent out = (sent', outcome)"
      by (cases "fetchPages bound up ?batch None sent out")
    have ab: "abortsOnRejection up (sent', outcome)"
      using fetchPages_aborts [OF "1.prems", of bound ?batch None out] run by simp
    show ?thesis
    proof (cases outcome)
      case (Returned out')
      have "\<forall>rq \<in> set sent'. \<not> rejected up rq"
        using ab Returned by (simp add: returned_not_rejected)
      then have "abortsOnRejection up (fetchBatches bound up ids (i + MAX_BATCH) sent' out')"
        using "1.IH" [OF True refl run [symmetric] Returned] by simp
      then show ?thesis
        using True run Returned by (simp add: fetchBatches.simps [of bound up ids i] Let_def)
    next
      case (Thrown m)
      then show ?thesis
        using True run ab by (simp add: fetchBatches.simps [of bound up ids i] Let_def)
    next
      case Running
      then show ?thesis
        using True run ab by (simp add: fetchBatches.simps [of bound up ids i] Let_def)
    qed
  qed
qed

lemma fetchTrialMeta_aborts: "abortsOnRejection up (fetchTrialMeta bound up ids)"
proof -
  have "abortsOnRejection up (fetchBatches bound up ids 0 [] [])"
    by (rule fetchBatches_aborts) simp
  then show ?thesis
    by (auto simp: fetchTrialMeta_def abortsOnRejection_def split: prod.splits Outcome.splits)
qed

lemma catchStatus_requestFailed: "catchStatus (requestFailed c) = 502"
  by (simp add: catchStatus_def requestFailed_def)

lemma respond_aborts:
  assumes "abortsOnRejection up run" and "rq \<in> set (fst run)" and "up rq = Inr res"
    and "\<not> ok (status res)"
  shows "snd (respond run) = Some \<lparr>code = 502, payload = ErrorBody (requestFailed (status res))\<rparr>
       \<and> fst (respond run) = fst run \<and> last (fst run) = rq"
proof -
  from assms have "snd run = Thrown (requestFailed (status res))" and "last (fst run) = rq"
    by (auto simp: abortsOnRejection_def)
  then show ?thesis
    by (cases run) (simp add: respond_def catchStatus_requestFailed)
qed

lemma fst_respond: "fst (respond run) = fst run"
  by (cases run) (simp add: respond_def split: Outcome.splits)

lemma digitValue_digitChar: "d < 10 \<Longrightarrow> digitValue (digitChar d) = d"
proof -
  assume "d < 10"
  then have "d \<in> {0, 1, 2, 3, 4, 5, 6, 7, 8, 9}"
    by auto
  then show ?thesis
    by (auto simp: digitValue_def digitChar_def)
qed

lemma isDigit_digitChar: "d < 10 \<Longrightarrow> isDigit (digitChar d)"
proof -
  assume "d < 10"
  then have "d \<in> {0, 1, 2, 3, 4, 5, 6, 7, 8, 9}"
    by auto
  then show ?thesis
    by (auto simp: isDigit_def digitChar_def)
qed

lemma numberOfDigits_snoc:
  "numberOfDigits (s @ [c]) = 10 * numberOfDigits s + digitValue c"
  by (simp add: numberOfDigits_def)

lemma numberOfDigits_stringOfNat: "numberOfDigits (stringOfNat n) = n"
proof (induction n rule: stringOfNat.induct)
  case (1 n)
  show ?case
  proof (cases "n < 10")
    case True
    then show ?thesis
      by (simp add: stringOfNat.simps [of n] numberOfDigits_def digitValue_digitChar)
  next
    case False
    then have "numberOfDigits (stringOfNat (n div 10)) = n div 10"
      by (rule "1.IH")
    with False show ?thesis
      by (simp add: stringOfNat.simps [of n] numberOfDigits_snoc digitValue_digitChar)
  qed
qed

lemma digits_stringOfNat: "list_all isDigit (stringOfNat n)"
proof (induction n rule: stringOfNat.induct)
  case (1 n)
  show ?case
  proof (cases "n < 10")
    case True
    then show ?thesis
      by (simp add: stringOfNat.simps [of n] isDigit_digitChar)
  next
    case False
    then have "list_all isDigit (stringOfNat (n div 10))"
      by (rule "1.IH")
    with False show ?thesis
      by (simp add: stringOfNat.simps [of n] isDigit_digitChar)
  qed
qed

text \<open>
  Claim C8. When the registry rejects any request of a fetch (the first request of a batch
  or a continuation page), that request is the last one sent, the fetch ends by throwing the
  error whose message is \<open>ClinicalTrials.gov request failed (\<close>, the status of the
  rejecting response in decimal, and \<open>)\<close>; whatever was gathered before is dropped, and
  the GET and the POST handler answer with the single response of status 502 that carries
  that message. The decimal text holds digits only and reads back as the status.
\<close>

theorem upstream_rejection_aborts_with_502:
  "(rq \<in> set (fst (fetchTrialMeta bound up ids)) \<and> up rq = Inr res \<and> \<not> ok (status res)
      \<longrightarrow> snd (fetchTrialMeta bound up ids) = Thrown (''ClinicalTrials.gov request failed ('' @ stringOfNat (status res) @ '')'')
          \<and> last (fst (fetchTrialMeta bound up ids)) = rq)
   \<and> (rq \<in> set (fst (GET_meta bound up idsQuery)) \<and> up rq = Inr res \<and> \<not> ok (status res)
      \<longrightarrow> snd (GET_meta bound up idsQuery)
            = Some \<lparr>code = 502, payload = ErrorBody
                 (''ClinicalTrials.gov request failed ('' @ stringOfNat (status res) @ '')'')\<rparr>
          \<and> last (fst (GET_meta bound up idsQuery)) = rq)
   \<and> (rq \<in> set (fst (POST_meta bound up reqBody)) \<and> up rq = Inr res \<and> \<not> ok (status res)
      \<longrightarrow> snd (POST_meta bound up reqBody)
            = Some \<lparr>code = 502, payload = ErrorBody
                 (''ClinicalTrials.gov request failed ('' @ stringOfNat (status res) @ '')'')\<rparr>
          \<and> last (fst (POST_meta bound up reqBody)) = rq)
   \<and> list_all isDigit (stringOfNat (status res))
   \<and> numberOfDigits (stringOfNat (status res)) = status res"
proof (intro conjI impI)
  assume h: "rq \<in> set (fst (fetchTrialMeta bound up ids)) \<and> up rq = Inr res \<and> \<not> ok (status res)"
  with fetchTrialMeta_aborts [of up bound ids]
  show "snd (fetchTrialMeta bound up ids) = Thrown (''ClinicalTrials.gov request failed ('' @ stringOfNat (status res) @ '')'')"
    and "last (fst (fetchTrialMeta bound up ids)) = rq"
    by (auto simp: abortsOnRejection_def requestFailed_def)
next
  assume h: "rq \<in> set (fst (GET_meta bound up idsQuery)) \<and> up rq = Inr res \<and> \<not> ok (status res)"
  define ids where "ids = filter (\<lambda>i. length i > 0)
      (map trim (splitOn CHR '','' (case idsQuery of None \<Rightarrow> [] | Some v \<Rightarrow> v)))"
  have g: "GET_meta bound up idsQuery = respond (fetchTrialMeta bound up ids)"
    using h by (auto simp: GET_meta_def ids_def Let_def split: if_splits)
  have "rq \<in> set (fst (fetchTrialMeta bound up ids))"
    using h by (simp add: g fst_respond)
  with h respond_aborts [OF fetchTrialMeta_aborts, of rq bound up ids res]
  show "snd (GET_meta bound up idsQuery)
            = Some \<lparr>code = 502, payload = ErrorBody
                 (''ClinicalTrials.gov request failed ('' @ stringOfNat (status res) @ '')'')\<rparr>"
    and "last (fst (GET_meta bound up idsQuery)) = rq"
    by (simp_all add: g requestFailed_def)
next
  assume h: "rq \<in> set (fst (POST_meta bound up reqBody)) \<and> up rq = Inr res \<and> \<not> ok (status res)"
  then obtain ids where g: "POST_meta bound up reqBody = respond (fetchTrialMeta bound up ids)"
    by (auto simp: POST_meta_def Let_def split: PostBody.splits if_splits)
  have "rq \<in> set (fst (fetchTrialMeta bound up ids))"
    using h by (simp add: g fst_respond)
  with h respond_aborts [OF fetchTrialMeta_aborts, of rq bound up ids res]
  show "snd (POST_meta bound up reqBody)
            = Some \<lparr>code = 502, payload = ErrorBody
                 (''ClinicalTrials.gov request failed ('' @ stringOfNat (status res) @ '')'')\<rparr>"
    and "last (fst (POST_meta bound up reqBody)) = rq"
    by (simp_all add: g requestFailed_def)
next
  show "list_all isDigit (stringOfNat (status res))"
    by (rule digits_stringOfNat)
  show "numberOfDigits (stringOfNat (status res)) = status res"
    by (rule numberOfDigits_stringOfNat)
qed

theorem upstream_rejection_witness:
  "ctRequest [''NCT01'', ''NCT02''] (Some ''page2'')
     \<in> set (fst (GET_meta 2 brokenRegistry (Some ''NCT01,NCT02'')))
   \<and> brokenRegistry (ctRequest [''NCT01'', ''NCT02''] (Some ''page2''))
       = Inr \<lparr>status = 503, studies = None, nextPageToken = None\<rparr>
   \<and> \<not> ok 503
   \<and> fst (GET_meta 2 brokenRegistry (Some ''NCT01,NCT02''))
       = [ctRequest [''NCT01'', ''NCT02''] None, ctRequest [''NCT01'', ''NCT02''] (Some ''page2'')]
   \<and> snd (GET_meta 2 brokenRegistry (Some ''NCT01,NCT02''))
       = Some \<lparr>code = 502, payload = ErrorBody ''ClinicalTrials.gov request failed (503)''\<rparr>
   \<and> snd (POST_meta 2 brokenRegistry (JsonBody (Some [''NCT01'', ''NCT02''])))
       = Some \<lparr>code = 502, payload = ErrorBody ''ClinicalTrials.gov request failed (503)''\<rparr>
   \<and> snd (fetchTrialMeta 2 brokenRegistry [''NCT01'', ''NCT02''])
       = Thrown ''ClinicalTrials.gov request failed (503)''
   \<and> stringOfNat 503 = ''503'' \<and> numberOfDigits ''503'' = 503"
proof -
  let ?rq = "ctRequest [''NCT01'', ''NCT02''] (Some ''page2'')"
  let ?res = "\<lparr>status = 503, studies = None, nextPageToken = None\<rparr>"
  have run: "fetchTrialMeta 2 brokenRegistry [''NCT01'', ''NCT02'']
      = ([ctRequest [''NCT01'', ''NCT02''] None, ?rq], Thrown (requestFailed 503))"
    by (simp add: fetchTrialMeta_def fetchBatches.simps [of _ _ _ 0] numeral_2_eq_2
        brokenRegistry_def ctRequest_def truthy_def MAX_BATCH_def slice_def ok_def)
  have g: "GET_meta 2 brokenRegistry (Some ''NCT01,NCT02'')
      = respond (fetchTrialMeta 2 brokenRegistry [''NCT01'', ''NCT02''])"
    by (simp add: GET_meta_def trim_def isWhiteSpace_def)
  have p: "POST_meta 2 brokenRegistry (JsonBody (Some [''NCT01'', ''NCT02'']))
      = respond (fetchTrialMeta 2 brokenRegistry [''NCT01'', ''NCT02''])"
    by (simp add: POST_meta_def)
  have a: "?rq \<in> set (fst (fetchTrialMeta 2 brokenRegistry [''NCT01'', ''NCT02'']))
      \<and> brokenRegistry ?rq = Inr ?res \<and> \<not> ok (status ?res)"
    by (simp add: run) (simp add: brokenRegistry_def ctRequest_def truthy_def ok_def)
  have b: "?rq \<in> set (fst (GET_meta 2 brokenRegistry (Some ''NCT01,NCT02'')))
      \<and> brokenRegistry ?rq = Inr ?res \<and> \<not> ok (status ?res)"
    using a by (simp add: g fst_respond)
  have c: "?rq \<in> set (fst (POST_meta 2 brokenRegistry (JsonBody (Some [''NCT01'', ''NCT02'']))))
      \<and> brokenRegistry ?rq = Inr ?res \<and> \<not> ok (status ?res)"
    using a by (simp add: p fst_respond)
  have m: "requestFailed 503 = ''ClinicalTrials.gov request failed (503)''"
    and d: "stringOfNat 503 = ''503''"
    by (simp_all add: requestFailed_def stringOfNat.simps digitChar_def)
  note t = upstream_rejection_aborts_with_502
    [where rq = ?rq and bound = 2 and up = brokenRegistry and res = ?res
       and ids = "[''NCT01'', ''NCT02'']" and idsQuery = "Some ''NCT01,NCT02''"
       and reqBody = "JsonBody (Some [''NCT01'', ''NCT02''])"]
  show ?thesis
    using t [THEN conjunct1, rule_format, OF a]
      t [THEN conjunct2, THEN conjunct1, rule_format, OF b]
      t [THEN conjunct2, THEN conjunct2, THEN conjunct1, rule_format, OF c]
      t [THEN conjunct2, THEN conjunct2, THEN conjunct2]
      a b run m d
    by (simp add: g fst_respond)
qed

lemma slice_take_drop:
  "slice xs (int i) (int i + int n) = take n (drop i xs)"
  by (auto simp: slice_def Let_def min_def)

lemma batches_unfold:
  "batches ids i =
     (if i < length ids then take MAX_BATCH (drop i ids) # batches ids (i + MAX_BATCH) else [])"
  supply batches.simps [simp del]
  by (subst batches.simps) (simp add: slice_take_drop)

lemma concat_batches: "concat (batches ids i) = drop i ids"
  supply batches.simps [simp del]
proof (induction ids i rule: batches.induct)
  case (1 ids i)
  show ?case
  proof (cases "i < length ids")
    case True
    have "take MAX_BATCH (drop i ids) @ drop MAX_BATCH (drop i ids) = drop i ids"
      by (rule append_take_drop_id)
    with True show ?thesis
      using "1.IH" by (subst batches_unfold) (simp add: add.commute)
  next
    case False
    then show ?thesis by (subst batches_unfold) simp
  qed
qed

lemma batches_sizes: "b \<in> set (batches ids i) \<Longrightarrow> 0 < length b \<and> length b \<le> MAX_BATCH"
  supply batches.simps [simp del]
proof (induction ids i rule: batches.induct)
  case (1 ids i)
  then show ?case
    by (subst (asm) (2) batches_unfold) (auto simp: MAX_BATCH_def split: if_splits)
qed

lemma batches_150:
  assumes "length ids = 150"
  shows "batches ids 0 = [take 100 ids, drop 100 ids]"
  supply batches.simps [simp del]
proof -
  have "batches ids 200 = []"
    using assms by (subst batches_unfold) simp
  then have "batches ids 100 = [drop 100 ids]"
    using assms by (subst batches_unfold) (simp add: MAX_BATCH_def)
  then show ?thesis
    using assms by (subst batches_unfold) (simp add: MAX_BATCH_def)
qed


lemma fetchPages_requests:
  "set (fst (fetchPages n up batch tok sent out)) \<subseteq> set sent \<union> range (ctRequest batch)"
proof (induction n arbitrary: tok sent out)
  case 0
  show ?case by simp
next
  case (Suc n)
  show ?case
    by (auto simp: Let_def split: sum.splits dest!: Suc.IH [THEN subsetD])
qed

lemma fetchBatches_requests:
  "set (fst (fetchBatches bound up ids i sent out))
     \<subseteq> set sent \<union> (\<Union>b \<in> set (batches ids i). range (ctRequest b))"
  supply batches.simps [simp del]
proof (induction bound up ids i sent out rule: fetchBatches.induct)
  case (1 bound up ids i sent out)
  show ?case
  proof (cases "i < length ids")
    case False
    then show ?thesis
      by (simp add: fetchBatches.simps [of bound up ids i])
  next
    case True
    let ?batch = "slice ids (int i) (int i + int MAX_BATCH)"
    obtain sent' outcome where run: "fetchPages bound up ?batch None sent out = (sent', outcome)"
      by (cases "fetchPages bound up ?batch None sent out")
    have pg: "set sent' \<subseteq> set sent \<union> range (ctRequest ?batch)"
      using fetchPages_requests [of bound up ?batch None sent out] run by simp
    have bt: "batches ids i = ?batch # batches ids (i + MAX_BATCH)"
      using True by (simp add: batches.simps [of ids i])
    show ?thesis
    proof (cases outcome)
      case (Returned out')
      have "set (fst (fetchBatches bound up ids (i + MAX_BATCH) sent' out'))
          \<subseteq> set sent' \<union> (\<Union>b \<in> set (batches ids (i + MAX_BATCH)). range (ctRequest b))"
        using "1.IH" [OF True refl run [symmetric] Returned] .
      with pg show ?thesis
        using True run Returned
        by (simp add: fetchBatches.simps [of bound up ids i] Let_def bt) blast
    next
      case (Thrown m)
      with pg show ?thesis
        using True run by (simp add: fetchBatches.simps [of bound up ids i] Let_def bt) blast
    next
      case Running
      with pg show ?thesis
        using True run by (simp add: fetchBatches.simps [of bound up ids i] Let_def bt) blast
    qed
  qed
qed

lemma fst_fetchTrialMeta:
  "fst (fetchTrialMeta bound up ids) = fst (fetchBatches bound up ids 0 [] [])"
  by (simp add: fetchTrialMeta_def split: prod.splits Outcome.splits)

lemma fetchPages_singlePage:
  assumes "singlePage up"
  shows "\<exists>out'. fetchPages (Suc n) up batch None sent out
                  = (sent @ [ctRequest batch None], Returned out')"
  using assms [unfolded singlePage_def, rule_format, of "ctRequest batch None"]
  by (auto simp: Let_def split: sum.splits)

lemma fetchBatches_singlePage:
  assumes "singlePage up"
  shows "\<exists>out'. fetchBatches (Suc n) up ids i sent out
                  = (sent @ map (\<lambda>b. ctRequest b None) (batches ids i), Returned out')"
  supply batches.simps [simp del]
proof (induction "length ids - i" arbitrary: i sent out rule: less_induct)
  case less
  show ?case
  proof (cases "i < length ids")
    case False
    then show ?thesis
      by (simp add: fetchBatches.simps [of _ up ids i] batches.simps [of ids i])
  next
    case True
    let ?batch = "slice ids (int i) (int i + int MAX_BATCH)"
    obtain out1 where pg: "fetchPages (Suc n) up ?batch None sent out
          = (sent @ [ctRequest ?batch None], Returned out1)"
      using fetchPages_singlePage [OF assms] by blast
    have "length ids - (i + MAX_BATCH) < length ids - i"
      using True by (simp add: MAX_BATCH_def)
    from less [OF this] obtain out2 where
      "fetchBatches (Suc n) up ids (i + MAX_BATCH) (sent @ [ctRequest ?batch None]) out1
         = ((sent @ [ctRequest ?batch None])
              @ map (\<lambda>b. ctRequest b None) (batches ids (i + MAX_BATCH)), Returned out2)"
      by blast
    then show ?thesis
      using True pg
      by (simp add: fetchBatches.simps [of _ up ids i] batches.simps [of ids i] Let_def)
  qed
qed

text \<open>
  Claim C3, as stated, fails: the handler does not remove duplicates. A list of 151 entries
  with 150 distinct identifiers is cut into batches of 100 and 51, and a registry that holds
  the repeated identifier returns its study once for each batch, so the output has two
  records for one identifier.
\<close>

theorem duplicate_ids_counterexample:
  "card (set ids151) = 150
   \<and> map length (batches ids151 0) = [100, 51]
   \<and> snd (fetchTrialMeta 1 (registry [study0]) ids151)
       = Returned [trimStudy study0, trimStudy study0]"
  by code_simp

text \<open>
  Claim C3, amended. A list of 150 entries, in any order, is cut into exactly two batches,
  its first 100 entries and its remaining 50; every request sent to the registry is for one
  of these two batches, and when the registry answers on a single page exactly one request
  is sent for each. Batches are consecutive slices of the list as received: their
  concatenation is the list itself.
\<close>

theorem list_of_150_ids_gives_two_batches:
  assumes "length ids = 150"
  shows "batches ids 0 = [take 100 ids, drop 100 ids]
       \<and> map length (batches ids 0) = [100, 50]
       \<and> concat (batches ids 0) = ids
       \<and> set (fst (fetchTrialMeta bound up ids))
           \<subseteq> range (ctRequest (take 100 ids)) \<union> range (ctRequest (drop 100 ids))
       \<and> (singlePage up
           \<longrightarrow> fst (fetchTrialMeta (Suc n) up ids)
                = [ctRequest (take 100 ids) None, ctRequest (drop 100 ids) None])"
  supply batches.simps [simp del]
proof -
  have b: "batches ids 0 = [take 100 ids, drop 100 ids]"
    using assms by (rule batches_150)
  have l: "map length (batches ids 0) = [100, 50]"
    using assms by (simp add: b)
  have c: "concat (batches ids 0) = ids"
    by (simp add: concat_batches)
  have r: "set (fst (fetchTrialMeta bound up ids))
           \<subseteq> range (ctRequest (take 100 ids)) \<union> range (ctRequest (drop 100 ids))"
    using fetchBatches_requests [of bound up ids 0 "[]" "[]"]
    by (simp add: fst_fetchTrialMeta b)
  have s: "singlePage up
           \<longrightarrow> fst (fetchTrialMeta (Suc n) up ids)
                = [ctRequest (take 100 ids) None, ctRequest (drop 100 ids) None]"
  proof
    assume "singlePage up"
    from fetchBatches_singlePage [OF this, of n ids 0 "[]" "[]"]
    show "fst (fetchTrialMeta (Suc n) up ids)
                = [ctRequest (take 100 ids) None, ctRequest (drop 100 ids) None]"
      by (auto simp: fst_fetchTrialMeta b)
  qed
  from b l c r s show ?thesis by blast
qed

theorem list_of_150_ids_witness:
  "length ids150 = 150 \<and> singlePage (registry [study1])
   \<and> map length (batches ids150 0) = [100, 50]
   \<and> batches ids150 0 = [take 100 ids150, drop 100 ids150]
   \<and> fst (fetchTrialMeta 1 (registry [study1]) ids150)
       = [ctRequest (take 100 ids150) None, ctRequest (drop 100 ids150) None]"
  supply batches.simps [simp del]
proof -
  have a: "length ids150 = 150"
    by (simp add: ids150_def)
  have s: "singlePage (registry [study1])"
    by (simp add: singlePage_def registry_def ok_def truthy_def)
  show ?thesis
    using list_of_150_ids_gives_two_batches
        [OF a, where bound = 1 and up = "registry [study1]" and n = 0]
      a s
    by simp
qed

lemma splitOn_no_sep: "sep \<notin> set x \<Longrightarrow> splitOn sep x = [x]"
  by (induction x) auto

lemma splitOn_append_sep:
  "sep \<notin> set x \<Longrightarrow> splitOn sep (x @ sep # rest) = x # splitOn sep rest"
  by (induction x) auto

lemma splitOn_joinWith:
  "ids \<noteq> [] \<Longrightarrow> \<forall>i \<in> set ids. sep \<notin> set i \<Longrightarrow> splitOn sep (joinWith [sep] ids) = ids"
proof (induction "[sep]" ids rule: joinWith.induct)
  case 1
  then show ?case by simp
next
  case (2 x)
  then show ?case by (simp add: splitOn_no_sep)
next
  case (3 x y ys)
  then show ?case by (simp add: splitOn_append_sep)
qed

lemma trim_no_edge_space:
  assumes "i \<noteq> []" and "\<not> isWhiteSpace (hd i)" and "\<not> isWhiteSpace (last i)"
  shows "trim i = i"
proof -
  from assms(1,3) have "rev i \<noteq> []" and "\<not> isWhiteSpace (hd (rev i))"
    by (simp_all add: hd_rev)
  then have "dropWhile isWhiteSpace (rev i) = rev i"
    by (cases "rev i") auto
  moreover have "dropWhile isWhiteSpace i = i"
    using assms(1,2) by (cases i) auto
  ultimately show ?thesis
    by (simp add: trim_def)
qed

lemma trim_clean: "cleanId i \<Longrightarrow> trim i = i"
proof (cases "i = []")
  case True
  then show ?thesis by (simp add: trim_def)
next
  case False
  assume "cleanId i"
  with False show ?thesis
    by (intro trim_no_edge_space) (auto simp: cleanId_def)
qed

lemma trim_trailing_space:
  assumes "core \<noteq> []" and "\<not> isWhiteSpace (hd core)" and "\<not> isWhiteSpace (last core)"
    and "isWhiteSpace w"
  shows "trim (core @ [w]) = core"
proof -
  have "dropWhile isWhiteSpace (core @ [w]) = core @ [w]"
    using assms(1,2) by (cases core) auto
  moreover have "dropWhile isWhiteSpace (rev (core @ [w])) = rev core"
  proof -
    from assms(1,3) have "rev core \<noteq> []" and "\<not> isWhiteSpace (hd (rev core))"
      by (simp_all add: hd_rev)
    then have "dropWhile isWhiteSpace (rev core) = rev core"
      by (cases "rev core") auto
    with assms(4) show ?thesis by simp
  qed
  ultimately show ?thesis
    by (simp add: trim_def)
qed

lemma GET_parse_clean:
  assumes "\<forall>i \<in> set ids. cleanId i"
  shows "filter (\<lambda>i. length i > 0) (map trim (splitOn CHR '','' (joinWith '','' ids)))
       = filter (\<lambda>i. i \<noteq> []) ids"
proof (cases "ids = []")
  case True
  then show ?thesis by (simp add: trim_def)
next
  case False
  then have "splitOn CHR '','' (joinWith '','' ids) = ids"
    using assms by (intro splitOn_joinWith) (auto simp: cleanId_def)
  moreover have "map trim ids = ids"
    using assms by (simp add: map_idI trim_clean)
  ultimately show ?thesis by simp
qed

lemma prefix_fetchPages: "prefix sent (fst (fetchPages n up batch tok sent out))"
proof (induction n arbitrary: tok sent out)
  case 0
  show ?case by simp
next
  case (Suc n)
  have "prefix (sent @ [ctRequest batch tok])
          (fst (fetchPages n up batch t (sent @ [ctRequest batch tok]) o'))" for t o'
    by (rule Suc.IH)
  then have "prefix sent (fst (fetchPages n up batch t (sent @ [ctRequest batch tok]) o'))" for t o'
    using append_prefixD by blast
  then show ?case
    by (auto simp: Let_def split: sum.splits)
qed

lemma first_request_fetchPages:
  "prefix (sent @ [ctRequest batch tok]) (fst (fetchPages (Suc n) up batch tok sent out))"
  using prefix_fetchPages [of "sent @ [ctRequest batch tok]" n up batch]
  by (auto simp: Let_def split: sum.splits)

lemma prefix_fetchBatches: "prefix sent (fst (fetchBatches bound up ids i sent out))"
proof (induction bound up ids i sent out rule: fetchBatches.induct)
  case (1 bound up ids i sent out)
  show ?case
  proof (cases "i < length ids")
    case False
    then show ?thesis
      by (simp add: fetchBatches.simps [of bound up ids i])
  next
    case True
    let ?batch = "slice ids (int i) (int i + int MAX_BATCH)"
    obtain sent' outcome where run: "fetchPages bound up ?batch None sent out = (sent', outcome)"
      by (cases "fetchPages bound up ?batch None sent out")
    have pg: "prefix sent sent'"
      using prefix_fetchPages [of sent bound up ?batch None out] run by simp
    show ?thesis
    proof (cases outcome)
      case (Returned out')
      have "prefix sent' (fst (fetchBatches bound up ids (i + MAX_BATCH) sent' out'))"
        using "1.IH" [OF True refl run [symmetric] Returned] .
      with pg have "prefix sent (fst (fetchBatches bound up ids (i + MAX_BATCH) sent' out'))"
        by (rule prefix_order.trans)
      then show ?thesis
        using True run Returned by (simp add: fetchBatches.simps [of bound up ids i] Let_def)
    next
      case (Thrown m)
      with pg show ?thesis
        using True run by (simp add: fetchBatches.simps [of bound up ids i] Let_def)
    next
      case Running
      with pg show ?thesis
        using True run by (simp add: fetchBatches.simps [of bound up ids i] Let_def)
    qed
  qed
qed

lemma first_request_single_id:
  "take 1 (fst (respond (fetchTrialMeta (Suc n) up [i]))) = [ctRequest [i] None]"
proof -
  let ?run = "fetchPages (Suc n) up [i] None [] []"
  obtain sent' outcome where run: "?run = (sent', outcome)"
    by (cases ?run)
  have p1: "prefix [ctRequest [i] None] sent'"
    using first_request_fetchPages [of "[]" "[i]" None n up "[]"] run by simp
  have "prefix sent' (fst (fetchBatches (Suc n) up [i] 0 [] []))"
  proof (cases outcome)
    case (Returned out')
    then show ?thesis
      using run prefix_fetchBatches [of sent' "Suc n" up "[i]" MAX_BATCH out']
      by (simp add: fetchBatches.simps [of _ up "[i]" 0] Let_def slice_def MAX_BATCH_def)
  next
    case (Thrown m)
    then show ?thesis
      using run
      by (simp add: fetchBatches.simps [of _ up "[i]" 0] Let_def slice_def MAX_BATCH_def)
  next
    case Running
    then show ?thesis
      using run
      by (simp add: fetchBatches.simps [of _ up "[i]" 0] Let_def slice_def MAX_BATCH_def)
  qed
  with p1 have "prefix [ctRequest [i] None] (fst (fetchBatches (Suc n) up [i] 0 [] []))"
    by (rule prefix_order.trans)
  then have "prefix [ctRequest [i] None] (fst (respond (fetchTrialMeta (Suc n) up [i])))"
    by (simp add: fst_respond fst_fetchTrialMeta)
  then show ?thesis
    by (auto simp: prefix_def)
qed

text \<open>
  Where the two transport forms agree: for identifiers that are all clean (no comma, no
  white space at either end) and whose joined text reaches the GET handler as the \<open>ids\<close>
  query value, both handlers drop the empty entries and pass the same list to the same
  fetch, so they send the same requests and give the same response; when no entry is left
  both answer with status 400. The client sends the POST form exactly when the URL of the
  GET form is longer than 1800 characters.
\<close>

lemma transports_agree_on_clean_ids:
  assumes "\<forall>i \<in> set ids. cleanId i"
    and "searchParamsGet (metaUrl ids) = Some (joinWith '','' ids)"
  shows "(filter (\<lambda>i. i \<noteq> []) ids \<noteq> []
            \<longrightarrow> GET_meta bound up (Some (joinWith '','' ids))
                  = respond (fetchTrialMeta bound up (filter (\<lambda>i. i \<noteq> []) ids))
                \<and> POST_meta bound up (JsonBody (Some ids))
                  = respond (fetchTrialMeta bound up (filter (\<lambda>i. i \<noteq> []) ids))
                \<and> serve bound up searchParamsGet (GetRequest (metaUrl ids))
                  = serve bound up searchParamsGet (PostRequest ''/api/trial-meta'' ids))
       \<and> (filter (\<lambda>i. i \<noteq> []) ids = []
            \<longrightarrow> GET_meta bound up (Some (joinWith '','' ids))
                  = ([], Some \<lparr>code = 400, payload = ErrorBody ''Missing ids query parameter''\<rparr>)
                \<and> POST_meta bound up (JsonBody (Some ids))
                  = ([], Some \<lparr>code = 400,
                                 payload = ErrorBody ''Request body must include 'ids' array''\<rparr>))
       \<and> clientRequest ids
           = (if 1800 < length (metaUrl ids) then PostRequest ''/api/trial-meta'' ids
              else GetRequest (metaUrl ids))"
proof -
  have g: "GET_meta bound up (Some (joinWith '','' ids))
      = (if filter (\<lambda>i. i \<noteq> []) ids = []
         then ([], Some \<lparr>code = 400, payload = ErrorBody ''Missing ids query parameter''\<rparr>)
         else respond (fetchTrialMeta bound up (filter (\<lambda>i. i \<noteq> []) ids)))"
    using GET_parse_clean [OF assms(1)] by (simp add: GET_meta_def)
  have p: "POST_meta bound up (JsonBody (Some ids))
      = (if filter (\<lambda>i. i \<noteq> []) ids = []
         then ([], Some \<lparr>code = 400,
                          payload = ErrorBody ''Request body must include 'ids' array''\<rparr>)
         else respond (fetchTrialMeta bound up (filter (\<lambda>i. i \<noteq> []) ids)))"
    by (simp add: POST_meta_def)
  have c: "clientRequest ids
           = (if 1800 < length (metaUrl ids) then PostRequest ''/api/trial-meta'' ids
              else GetRequest (metaUrl ids))"
    by (simp add: clientRequest_def)
  from g p c show ?thesis
    by (simp add: serve_def assms(2))
qed

text \<open>
  Claim C6 on an identifier that ends with white space. The GET handler trims each entry
  of the \<open>ids\<close> query value and the POST handler passes the entries of the body on as
  they are. For an identifier made of a clean, non-empty text followed by one white space
  character, the first request that GET sends to the registry asks for the trimmed text and
  the first request that POST sends asks for the untrimmed one; the two requests differ.
\<close>

theorem post_keeps_white_space_that_get_trims:
  assumes "core \<noteq> []" and "CHR '','' \<notin> set core"
    and "\<not> isWhiteSpace (hd core)" and "\<not> isWhiteSpace (last core)" and "isWhiteSpace w"
  shows "take 1 (fst (GET_meta (Suc n) up (Some (joinWith '','' [core @ [w]]))))
           = [ctRequest [core] None]
       \<and> take 1 (fst (POST_meta (Suc n) up (JsonBody (Some [core @ [w]]))))
           = [ctRequest [core @ [w]] None]
       \<and> filter_ids (ctRequest [core] None) = core
       \<and> filter_ids (ctRequest [core @ [w]] None) = core @ [w]
       \<and> ctRequest [core] None \<noteq> ctRequest [core @ [w]] None"
proof -
  have w: "w \<noteq> CHR '',''"
    using assms(5) by (auto simp: isWhiteSpace_def)
  then have "splitOn CHR '','' (core @ [w]) = [core @ [w]]"
    using assms(2) by (intro splitOn_no_sep) simp
  moreover have "trim (core @ [w]) = core"
    using assms(1,3,4,5) by (rule trim_trailing_space)
  ultimately have "GET_meta (Suc n) up (Some (joinWith '','' [core @ [w]]))
      = respond (fetchTrialMeta (Suc n) up [core])"
    using assms(1) by (simp add: GET_meta_def)
  then have g: "take 1 (fst (GET_meta (Suc n) up (Some (joinWith '','' [core @ [w]]))))
           = [ctRequest [core] None]"
    using first_request_single_id [of n up core] by simp
  have "POST_meta (Suc n) up (JsonBody (Some [core @ [w]]))
      = respond (fetchTrialMeta (Suc n) up [core @ [w]])"
    by (simp add: POST_meta_def)
  then have p: "take 1 (fst (POST_meta (Suc n) up (JsonBody (Some [core @ [w]]))))
           = [ctRequest [core @ [w]] None]"
    using first_request_single_id [of n up "core @ [w]"] by simp
  have f: "filter_ids (ctRequest [core] None) = core"
    "filter_ids (ctRequest [core @ [w]] None) = core @ [w]"
    by (simp_all add: ctRequest_def)
  then have "filter_ids (ctRequest [core] None) \<noteq> filter_ids (ctRequest [core @ [w]] None)"
    by simp
  then have d: "ctRequest [core] None \<noteq> ctRequest [core @ [w]] None"
    by metis
  from g p f d show ?thesis by simp
qed

theorem post_keeps_white_space_witness:
  "''NCT01'' \<noteq> [] \<and> CHR '','' \<notin> set ''NCT01''
   \<and> \<not> isWhiteSpace (hd ''NCT01'') \<and> \<not> isWhiteSpace (last ''NCT01'')
   \<and> isWhiteSpace (CHR '' '') \<and> isWhiteSpace (CHR 0xA0)
   \<and> take 1 (fst (GET_meta 1 (registry [study1, study2]) (Some ''NCT01 '')))
       = [ctRequest [''NCT01''] None]
   \<and> take 1 (fst (POST_meta 1 (registry [study1, study2]) (JsonBody (Some [''NCT01 '']))))
       = [ctRequest [''NCT01 ''] None]
   \<and> snd (GET_meta 1 (registry [study1, study2]) (Some ''NCT01 ''))
       = Some \<lparr>code = 200, payload = MetaBody [trimStudy study1]\<rparr>
   \<and> snd (POST_meta 1 (registry [study1, study2]) (JsonBody (Some [''NCT01 ''])))
       = Some \<lparr>code = 200, payload = MetaBody []\<rparr>
   \<and> take 1 (fst (GET_meta 1 (registry [study1, study2]) (Some (''NCT01'' @ [CHR 0xA0]))))
       = [ctRequest [''NCT01''] None]
   \<and> take 1 (fst (POST_meta 1 (registry [study1, study2])
                    (JsonBody (Some [''NCT01'' @ [CHR 0xA0]]))))
       = [ctRequest [''NCT01'' @ [CHR 0xA0]] None]"
proof -
  have a: "''NCT01'' \<noteq> []" and b: "CHR '','' \<notin> set ''NCT01''"
    and c: "\<not> isWhiteSpace (hd ''NCT01'')" and d: "\<not> isWhiteSpace (last ''NCT01'')"
    and e: "isWhiteSpace (CHR '' '')" and e': "isWhiteSpace (CHR 0xA0)"
    by (simp_all add: isWhiteSpace_def)
  have r: "snd (GET_meta 1 (registry [study1, study2]) (Some ''NCT01 ''))
       = Some \<lparr>code = 200, payload = MetaBody [trimStudy study1]\<rparr>"
    "snd (POST_meta 1 (registry [study1, study2]) (JsonBody (Some [''NCT01 ''])))
       = Some \<lparr>code = 200, payload = MetaBody []\<rparr>"
    by (simp_all add: trim_def isWhiteSpace_def digitChar_def stringOfNat.simps MAX_BATCH_def
      KEEP_FIELDS_def ok_def ctRequest_def fetchTrialMeta_def respond_def GET_meta_def
      POST_meta_def registry_def study1_def study2_def slice_def truthy_def
      fetchBatches.simps [of _ _ _ 0] fetchBatches.simps [of _ _ _ 100])
  show ?thesis
    using post_keeps_white_space_that_get_trims
        [OF a b c d e, where n = 0 and up = "registry [study1, study2]"]
      post_keeps_white_space_that_get_trims
        [OF a b c d e', where n = 0 and up = "registry [study1, study2]"]
      a b c d e e' r
    by simp
qed

section \<open>Properties of the investigators search endpoint\<close>

lemma offset_not_negative:
  "x \<noteq> NaN \<Longrightarrow> nonNegative (timesPositive (minusNum (mathMax x 1) 1) (real_of_int ITEMS_PER_PAGE))"
  by (cases x) (simp_all add: ITEMS_PER_PAGE_def)

lemma investigatorsQuery_offset:
  "investigatorsQuery env rq = Inr q
   \<Longrightarrow> offset q = timesPositive (minusNum (pageNumber env rq) 1) (real_of_int ITEMS_PER_PAGE)"
  by (auto simp: investigatorsQuery_def Let_def split: if_splits prod.splits)

lemma investigatorsQuery_page:
  assumes "pageNumber env rq' = pageNumber env rq"
    and "zip_q rq' = zip_q rq" and "radius_q rq' = radius_q rq"
    and "startYear_q rq' = startYear_q rq" and "endYear_q rq' = endYear_q rq"
  shows "investigatorsQuery env rq' = investigatorsQuery env rq"
proof -
  have "swappedYears rq' = swappedYears rq"
    using assms by (simp add: swappedYears_def)
  then show ?thesis
    using assms by (simp add: investigatorsQuery_def cong: if_cong)
qed

text \<open>
  Claim C10. When the page parameter parses to a number (anything but \<open>NaN\<close>), the page
  used is at least 1 and the offset of the query sent to the database is not negative; a
  page that parses to 1 or less (or to minus infinity) gives page 1, and then the query and
  the response are those of the same request with a page parameter that parses to 1.
\<close>

theorem page_clamped_offset_not_negative:
  assumes "jsNumber env (pageText rq) \<noteq> NaN"
  shows "atLeast1 (pageNumber env rq)
       \<and> (\<forall>q. investigatorsQuery env rq = Inr q \<longrightarrow> nonNegative (offset q))
       \<and> (\<forall>p1. (jsNumber env (pageText rq) = NegInfinity
                  \<or> (\<exists>x. jsNumber env (pageText rq) = Num x \<and> x \<le> 1))
                \<and> jsNumber env p1 = Num 1
             \<longrightarrow> pageNumber env rq = Num 1
                 \<and> investigatorsQuery env rq = investigatorsQuery env (rq\<lparr>page_q := Some p1\<rparr>)
                 \<and> GET_investigators env rq = GET_investigators env (rq\<lparr>page_q := Some p1\<rparr>))"
proof (intro conjI allI impI)
  show "atLeast1 (pageNumber env rq)"
    using assms by (cases "jsNumber env (pageText rq)") (simp_all add: pageNumber_def)
next
  fix q
  assume "investigatorsQuery env rq = Inr q"
  then have "offset q = timesPositive (minusNum (pageNumber env rq) 1) (real_of_int ITEMS_PER_PAGE)"
    by (rule investigatorsQuery_offset)
  then show "nonNegative (offset q)"
    using offset_not_negative [OF assms] by (simp add: pageNumber_def)
next
  fix p1
  assume h: "(jsNumber env (pageText rq) = NegInfinity
                  \<or> (\<exists>x. jsNumber env (pageText rq) = Num x \<and> x \<le> 1))
                \<and> jsNumber env p1 = Num 1"
  then show one: "pageNumber env rq = Num 1"
    by (auto simp: pageNumber_def)
  have "pageNumber env (rq\<lparr>page_q := Some p1\<rparr>) = Num 1"
    using h by (simp add: pageNumber_def pageText_def)
  with one show q: "investigatorsQuery env rq = investigatorsQuery env (rq\<lparr>page_q := Some p1\<rparr>)"
    by (intro investigatorsQuery_page [symmetric]) simp_all
  then show "GET_investigators env rq = GET_investigators env (rq\<lparr>page_q := Some p1\<rparr>)"
    by (simp add: GET_investigators_def split: sum.splits)
qed

theorem page_clamped_witness:
  "jsNumber exampleEnv (pageText (pageRequest ''-3'')) = Num (- 3)
   \<and> jsNumber exampleEnv ''1'' = Num 1
   \<and> pageNumber exampleEnv (pageRequest ''-3'') = Num 1
   \<and> investigatorsQuery exampleEnv (pageRequest ''-3'')
       = Inr \<lparr>whereExpr = InArrayZip [''77030''], orderBy = ''start_date desc'',
               limit = 6, offset = Num 0\<rparr>
   \<and> nonNegative (Num 0)
   \<and> investigatorsQuery exampleEnv (pageRequest ''-3'')
       = investigatorsQuery exampleEnv (pageRequest ''1'')
   \<and> GET_investigators exampleEnv (pageRequest ''-3'')
       = GET_investigators exampleEnv (pageRequest ''1'')
   \<and> investigatorsQuery exampleEnv (pageRequest ''3'')
       = Inr \<lparr>whereExpr = InArrayZip [''77030''], orderBy = ''start_date desc'',
               limit = 6, offset = Num 12\<rparr>"
proof -
  note defs =
    isDigit_def matchesDigits_def digitValue_def numberOfDigits_def isValidYear_def yearNum_def
    truthyNum_def swappedYears_def pageText_def pageNumber_def investigatorsQuery_def
    decimalNumber_def exampleEnv_def truthy_def ITEMS_PER_PAGE_def pageRequest_def
  have a: "jsNumber exampleEnv (pageText (pageRequest ''-3'')) = Num (- 3)"
    and b: "jsNumber exampleEnv ''1'' = Num 1"
    and c: "investigatorsQuery exampleEnv (pageRequest ''-3'')
       = Inr \<lparr>whereExpr = InArrayZip [''77030''], orderBy = ''start_date desc'',
               limit = 6, offset = Num 0\<rparr>"
    and d: "investigatorsQuery exampleEnv (pageRequest ''3'')
       = Inr \<lparr>whereExpr = InArrayZip [''77030''], orderBy = ''start_date desc'',
               limit = 6, offset = Num 12\<rparr>"
    and e: "(pageRequest ''-3'')\<lparr>page_q := Some ''1''\<rparr> = pageRequest ''1''"
    by (simp_all add: defs)
  have n: "jsNumber exampleEnv (pageText (pageRequest ''-3'')) \<noteq> NaN"
    by (simp add: a)
  have h: "(jsNumber exampleEnv (pageText (pageRequest ''-3'')) = NegInfinity
          \<or> (\<exists>x. jsNumber exampleEnv (pageText (pageRequest ''-3'')) = Num x \<and> x \<le> 1))
        \<and> jsNumber exampleEnv ''1'' = Num 1"
    by (simp add: a b)
  note t = page_clamped_offset_not_negative [OF n]
  show ?thesis
    using t [THEN conjunct2, THEN conjunct1, rule_format, OF c]
      t [THEN conjunct2, THEN conjunct2, rule_format, OF h]
      a b c d e
    by simp
qed

text \<open>
  The swap of inverted years, for years whose number is not 0: the response is the one of
  the request with the two years exchanged. A year that is given, not empty and not four
  digits is answered with status 400.
\<close>

lemma inverted_years_swapped:
  assumes "matchesDigits 4 sy" and "matchesDigits 4 ey"
    and "numberOfDigits sy \<noteq> 0" and "numberOfDigits ey \<noteq> 0"
    and "numberOfDigits sy > numberOfDigits ey"
  shows "GET_investigators env (rq\<lparr>startYear_q := Some sy, endYear_q := Some ey\<rparr>)
       = GET_investigators env (rq\<lparr>startYear_q := Some ey, endYear_q := Some sy\<rparr>)"
proof -
  have ne: "sy \<noteq> []" "ey \<noteq> []"
    using assms(1,2) by (auto simp: matchesDigits_def)
  have "investigatorsQuery env (rq\<lparr>startYear_q := Some sy, endYear_q := Some ey\<rparr>)
      = investigatorsQuery env (rq\<lparr>startYear_q := Some ey, endYear_q := Some sy\<rparr>)"
    using assms ne
    by (simp add: investigatorsQuery_def swappedYears_def yearNum_def truthyNum_def
        isValidYear_def truthy_def pageNumber_def pageText_def Let_def)
  then show ?thesis
    by (simp add: GET_investigators_def split: sum.splits)
qed

lemma malformed_year_400:
  assumes "truthy y" and "\<not> matchesDigits 4 (case y of None \<Rightarrow> [] | Some s \<Rightarrow> s)"
    and "startYear_q rq = y \<or> endYear_q rq = y"
  shows "GET_investigators env rq
       = ErrorResponse 400 ''startYear/endYear must be 4-digit numbers''"
  using assms
  by (auto simp: GET_investigators_def investigatorsQuery_def isValidYear_def Let_def)

lemma swappedYears_0000:
  assumes "matchesDigits 4 sy" and "numberOfDigits sy \<noteq> 0"
  shows "swappedYears (rq\<lparr>startYear_q := Some sy, endYear_q := Some ''0000''\<rparr>)
           = (Some (numberOfDigits sy), Some 0)"
    and "swappedYears (rq\<lparr>startYear_q := Some ''0000'', endYear_q := Some sy\<rparr>)
           = (Some 0, Some (numberOfDigits sy))"
proof -
  have z: "numberOfDigits ''0000'' = 0"
    by (simp add: numberOfDigits_def digitValue_def)
  have "sy \<noteq> []"
    using assms(1) by (auto simp: matchesDigits_def)
  then show "swappedYears (rq\<lparr>startYear_q := Some sy, endYear_q := Some ''0000''\<rparr>)
           = (Some (numberOfDigits sy), Some 0)"
    and "swappedYears (rq\<lparr>startYear_q := Some ''0000'', endYear_q := Some sy\<rparr>)
           = (Some 0, Some (numberOfDigits sy))"
    by (simp_all add: swappedYears_def yearNum_def truthyNum_def z Let_def)
qed

text \<open>
  Claim C9 on the year \<open>0000\<close>. The text \<open>0000\<close> passes the year validation and its
  number 0 is falsy, so a request with a later start year and the end year \<open>0000\<close> is
  not swapped: its query bounds the start date from below by the start year, while the
  request with the two years in order bounds it from above by that year. The two where
  expressions differ.
\<close>

theorem year_0000_is_not_swapped:
  assumes "matchesDigits 4 sy" and "numberOfDigits sy \<noteq> 0"
  shows "numberOfDigits sy > numberOfDigits ''0000''
       \<and> swappedYears (rq\<lparr>startYear_q := Some sy, endYear_q := Some ''0000''\<rparr>)
           = (Some (numberOfDigits sy), Some 0)
       \<and> (\<forall>q q'. investigatorsQuery env (rq\<lparr>startYear_q := Some sy, endYear_q := Some ''0000''\<rparr>)
                     = Inr q
                 \<and> investigatorsQuery env (rq\<lparr>startYear_q := Some ''0000'', endYear_q := Some sy\<rparr>)
                     = Inr q'
            \<longrightarrow> (\<exists>zipList. whereExpr q
                          = And [InArrayZip zipList,
                                 GteStartDate (stringOfNat (numberOfDigits sy) @ ''-01-01'')]
                        \<and> whereExpr q'
                          = And [InArrayZip zipList,
                                 LteStartDate (stringOfNat (numberOfDigits sy) @ ''-12-31'')])
                \<and> whereExpr q \<noteq> whereExpr q')"
proof (intro conjI allI impI)
  show "numberOfDigits sy > numberOfDigits ''0000''"
    using assms(2) by (simp add: numberOfDigits_def digitValue_def)
  show "swappedYears (rq\<lparr>startYear_q := Some sy, endYear_q := Some ''0000''\<rparr>)
           = (Some (numberOfDigits sy), Some 0)"
    using assms by (rule swappedYears_0000)
next
  fix q q'
  assume h: "investigatorsQuery env (rq\<lparr>startYear_q := Some sy, endYear_q := Some ''0000''\<rparr>)
                     = Inr q
                 \<and> investigatorsQuery env (rq\<lparr>startYear_q := Some ''0000'', endYear_q := Some sy\<rparr>)
                     = Inr q'"
  let ?zl = "zipRadius env (case zip_q rq of None \<Rightarrow> [] | Some z \<Rightarrow> z)
               (jsNumber env (case radius_q rq of None \<Rightarrow> ''15'' | Some r \<Rightarrow> r))"
  have a: "whereExpr q
      = And [InArrayZip ?zl, GteStartDate (stringOfNat (numberOfDigits sy) @ ''-01-01'')]"
    using h assms
    by (auto simp: investigatorsQuery_def swappedYears_0000 [OF assms] truthyNum_def Let_def
        split: if_splits)
  have b: "whereExpr q'
      = And [InArrayZip ?zl, LteStartDate (stringOfNat (numberOfDigits sy) @ ''-12-31'')]"
    using h assms
    by (auto simp: investigatorsQuery_def swappedYears_0000 [OF assms] truthyNum_def Let_def
        split: if_splits)
  from a b show "\<exists>zipList. whereExpr q
                          = And [InArrayZip zipList,
                                 GteStartDate (stringOfNat (numberOfDigits sy) @ ''-01-01'')]
                        \<and> whereExpr q'
                          = And [InArrayZip zipList,
                                 LteStartDate (stringOfNat (numberOfDigits sy) @ ''-12-31'')]"
    by blast
  from a b show "whereExpr q \<noteq> whereExpr q'"
    by simp
qed

theorem year_0000_witness:
  "matchesDigits 4 ''2020'' \<and> numberOfDigits ''2020'' = 2020
   \<and> investigatorsQuery exampleEnv (yearsRequest ''2020'' ''0000'')
       = Inr \<lparr>whereExpr = And [InArrayZip [''77030''], GteStartDate ''2020-01-01''],
               orderBy = ''start_date desc'', limit = 6, offset = Num 0\<rparr>
   \<and> investigatorsQuery exampleEnv (yearsRequest ''0000'' ''2020'')
       = Inr \<lparr>whereExpr = And [InArrayZip [''77030''], LteStartDate ''2020-12-31''],
               orderBy = ''start_date desc'', limit = 6, offset = Num 0\<rparr>
   \<and> And [InArrayZip [''77030''], GteStartDate ''2020-01-01'']
       \<noteq> And [InArrayZip [''77030''], LteStartDate ''2020-12-31'']"
proof -
  note defs =
    isDigit_def matchesDigits_def digitValue_def numberOfDigits_def isValidYear_def yearNum_def
    truthyNum_def swappedYears_def pageText_def pageNumber_def investigatorsQuery_def
    decimalNumber_def exampleEnv_def truthy_def ITEMS_PER_PAGE_def yearsRequest_def
    digitChar_def stringOfNat.simps
  have a: "matchesDigits 4 ''2020''" and b: "numberOfDigits ''2020'' = 2020"
    by (simp_all add: defs)
  have n: "numberOfDigits ''2020'' \<noteq> 0"
    by (simp add: b)
  let ?q = "\<lparr>whereExpr = And [InArrayZip [''77030''], GteStartDate ''2020-01-01''],
               orderBy = ''start_date desc'', limit = 6, offset = Num 0\<rparr>"
  let ?q' = "\<lparr>whereExpr = And [InArrayZip [''77030''], LteStartDate ''2020-12-31''],
               orderBy = ''start_date desc'', limit = 6, offset = Num 0\<rparr>"
  have c: "investigatorsQuery exampleEnv
             ((yearsRequest ''2020'' ''2020'')\<lparr>startYear_q := Some ''2020'', endYear_q := Some ''0000''\<rparr>)
             = Inr ?q
         \<and> investigatorsQuery exampleEnv
             ((yearsRequest ''2020'' ''2020'')\<lparr>startYear_q := Some ''0000'', endYear_q := Some ''2020''\<rparr>)
             = Inr ?q'"
    by (simp add: defs)
  have d: "(yearsRequest ''2020'' ''2020'')\<lparr>startYear_q := Some ''2020'', endYear_q := Some ''0000''\<rparr>
             = yearsRequest ''2020'' ''0000''"
    "(yearsRequest ''2020'' ''2020'')\<lparr>startYear_q := Some ''0000'', endYear_q := Some ''2020''\<rparr>
             = yearsRequest ''0000'' ''2020''"
    by (simp_all add: yearsRequest_def)
  show ?thesis
    using year_0000_is_not_swapped [OF a n, where env = exampleEnv
        and rq = "yearsRequest ''2020'' ''2020''", THEN conjunct2, THEN conjunct2, rule_format,
        OF c]
      a b c d
    by simp
qed

end
